theory Spec2Isabelle
  imports Complex_Main "HOL-Library.Log_Nat"
begin

section \<open>JavaScript values used by the services\<close>

subsection \<open>Numbers\<close>

text \<open>
  A JavaScript \<open>number\<close> is an IEEE 754 double: \<open>NaN\<close>, an infinity, or a finite
  value. A finite value is kept as the rational it denotes (the zero has no sign here);
  the doubles are the rationals that \<open>round64\<close> leaves as they are.
\<close>

datatype jsnum = NaN | Fin rat | PInf | NInf

fun js_neg :: "jsnum \<Rightarrow> jsnum" where
  "js_neg NaN = NaN"
| "js_neg (Fin a) = Fin (- a)"
| "js_neg PInf = NInf"
| "js_neg NInf = PInf"

text \<open>The nearest integer, a tie going to the even one.\<close>

definition round_half_even :: "rat \<Rightarrow> int" where
  "round_half_even x =
     (if x - of_int \<lfloor>x\<rfloor> < 1 / 2 then \<lfloor>x\<rfloor>
      else if 1 / 2 < x - of_int \<lfloor>x\<rfloor> then \<lfloor>x\<rfloor> + 1
      else if even \<lfloor>x\<rfloor> then \<lfloor>x\<rfloor> else \<lfloor>x\<rfloor> + 1)"

text \<open>
  Rounding of \<open>n >= 0\<close>, counted in units of $2^{-1074}$ (the smallest double), to 53
  significant bits: the bits of \<open>n\<close> beyond 53 are shifted out, the rest is rounded
  to the nearest integer and shifted back.
\<close>

definition round_scaled :: "rat \<Rightarrow> int" where
  "round_scaled n =
     round_half_even (n / 2 ^ nat (bitlen \<lfloor>n\<rfloor> - 53)) * 2 ^ nat (bitlen \<lfloor>n\<rfloor> - 53)"

text \<open>
  The double nearest to \<open>x >= 0\<close> (round to nearest, ties to even); a result of
  $2^{1024}$ or more overflows to \<open>Infinity\<close>.
\<close>

definition round_pos :: "rat \<Rightarrow> jsnum" where
  "round_pos x =
     (if 2 ^ 2098 \<le> round_scaled (x * 2 ^ 1074) then PInf
      else Fin (of_int (round_scaled (x * 2 ^ 1074)) / 2 ^ 1074))"

definition round64 :: "rat \<Rightarrow> jsnum" where
  "round64 x = (if 0 \<le> x then round_pos x else js_neg (round_pos (- x)))"

text \<open>The largest finite double, $(2^{53} - 1) \cdot 2^{971}$.\<close>

definition max_double :: rat where
  "max_double = (2 ^ 53 - 1) * 2 ^ 971"

text \<open>\<open>a + b\<close>: the exact sum of two finite values, rounded.\<close>

fun js_add :: "jsnum \<Rightarrow> jsnum \<Rightarrow> jsnum" where
  "js_add NaN _ = NaN"
| "js_add _ NaN = NaN"
| "js_add (Fin a) (Fin b) = round64 (a + b)"
| "js_add PInf NInf = NaN"
| "js_add NInf PInf = NaN"
| "js_add PInf _ = PInf"
| "js_add _ PInf = PInf"
| "js_add NInf _ = NInf"
| "js_add _ NInf = NInf"

definition js_sub :: "jsnum \<Rightarrow> jsnum \<Rightarrow> jsnum" where
  "js_sub a b = js_add a (js_neg b)"

text \<open>The comparison \<open>a <= b\<close> of two numbers.\<close>

fun js_le :: "jsnum \<Rightarrow> jsnum \<Rightarrow> bool" where
  "js_le NaN _ = False"
| "js_le _ NaN = False"
| "js_le (Fin a) (Fin b) = (a \<le> b)"
| "js_le NInf _ = True"
| "js_le _ PInf = True"
| "js_le _ _ = False"


text \<open>
  A number sent to the store travels as JSON, where \<open>NaN\<close> and the infinities are
  written \<open>null\<close> and a finite double is written as a decimal text that reads back as
  the same double; the column keeps that text, the model the value of the double.
\<close>

fun json_number :: "jsnum \<Rightarrow> rat option" where
  "json_number (Fin a) = Some a"
| "json_number _ = None"

text \<open>
  \<open>x || 0\<close> on a numeric column as the client receives it: the decimal of the column
  is read as the nearest double; \<open>null\<close> and \<open>0\<close> both give \<open>0\<close>.
\<close>

definition or_zero :: "rat option \<Rightarrow> jsnum" where
  "or_zero x = (case x of None \<Rightarrow> Fin 0 | Some v \<Rightarrow> round64 v)"

text \<open>\<open>s || d\<close> on an optional string: \<open>null\<close>, \<open>undefined\<close> and \<open>''\<close> give \<open>d\<close>.\<close>

definition or_str :: "string option \<Rightarrow> string \<Rightarrow> string" where
  "or_str s d = (case s of None \<Rightarrow> d | Some x \<Rightarrow> if x = [] then d else x)"

subsection \<open>Strings\<close>

text \<open>
  Strings are byte strings; \<open>trim\<close> and \<open>toLowerCase\<close> are modelled on ASCII
  (the white space of \<open>trim\<close> is space, tab, line feed, vertical tab, form feed and
  carriage return).
\<close>

definition is_space :: "char \<Rightarrow> bool" where
  "is_space c = (c \<in> set [CHR 0x20, CHR 0x09, CHR 0x0A, CHR 0x0B, CHR 0x0C, CHR 0x0D])"

definition trim :: "string \<Rightarrow> string" where
  "trim s = rev (dropWhile is_space (rev (dropWhile is_space s)))"

definition lower_char :: "char \<Rightarrow> char" where
  "lower_char c =
     (case map_of (zip ''ABCDEFGHIJKLMNOPQRSTUVWXYZ'' ''abcdefghijklmnopqrstuvwxyz'') c of
        None \<Rightarrow> c
      | Some d \<Rightarrow> d)"

definition toLowerCase :: "string \<Rightarrow> string" where
  "toLowerCase s = map lower_char s"

subsection \<open>parseFloat\<close>

definition digit_val :: "char \<Rightarrow> nat option" where
  "digit_val c =
     map_of [(CHR ''0'', 0), (CHR ''1'', 1), (CHR ''2'', 2), (CHR ''3'', 3), (CHR ''4'', 4),
             (CHR ''5'', 5), (CHR ''6'', 6), (CHR ''7'', 7), (CHR ''8'', 8), (CHR ''9'', 9)] c"

definition is_digit :: "char \<Rightarrow> bool" where
  "is_digit c = (digit_val c \<noteq> None)"

definition digits_val :: "string \<Rightarrow> nat" where
  "digits_val s = foldl (\<lambda>a c. case digit_val c of None \<Rightarrow> a | Some d \<Rightarrow> 10 * a + d) 0 s"

definition scale10 :: "rat \<Rightarrow> int \<Rightarrow> rat" where
  "scale10 x e = (if 0 \<le> e then x * 10 ^ nat e else x / 10 ^ nat (- e))"

text \<open>
  The exponent part at the head of the remaining text: \<open>e\<close> or \<open>E\<close>, an optional sign
  and at least one digit. Anything else is no exponent.
\<close>

definition exponent_part :: "string \<Rightarrow> int" where
  "exponent_part s =
     (case s of
        [] \<Rightarrow> 0
      | c # t \<Rightarrow>
          if c = CHR ''e'' \<or> c = CHR ''E'' then
            (case t of
               [] \<Rightarrow> 0
             | d # u \<Rightarrow>
                 if d = CHR ''-'' then - int (digits_val (takeWhile is_digit u))
                 else if d = CHR ''+'' then int (digits_val (takeWhile is_digit u))
                 else int (digits_val (takeWhile is_digit t)))
          else 0)"

text \<open>
  The longest prefix that is an unsigned decimal literal, read as the double nearest to
  the decimal it writes, or \<open>Infinity\<close>.
\<close>

definition parse_unsigned :: "string \<Rightarrow> jsnum" where
  "parse_unsigned s =
     (if take 8 s = ''Infinity'' then PInf
      else
        let ip = takeWhile is_digit s;
            r1 = dropWhile is_digit s;
            has_dot = (r1 \<noteq> [] \<and> hd r1 = CHR ''.'');
            fp = (if has_dot then takeWhile is_digit (tl r1) else []);
            r2 = (if has_dot then dropWhile is_digit (tl r1) else r1)
        in if ip = [] \<and> fp = [] then NaN
           else round64 (scale10 (of_nat (digits_val ip) + of_nat (digits_val fp) / 10 ^ length fp)
                                 (exponent_part r2)))"

definition parseFloat :: "string \<Rightarrow> jsnum" where
  "parseFloat s =
     (case dropWhile is_space s of
        [] \<Rightarrow> NaN
      | c # u \<Rightarrow>
          if c = CHR ''-'' then js_neg (parse_unsigned u)
          else if c = CHR ''+'' then parse_unsigned u
          else parse_unsigned (c # u))"

section \<open>The case store\<close>

datatype work_status = New | Assigned | InProgress | Closed

text \<open>
  A value of a \<open>Record<string, unknown>\<close> or a spreadsheet cell: \<open>undefined\<close>
  (also a hole or an index past the end of a row), \<open>null\<close>, a string, a number or a
  boolean. Numeric cells are modelled for integers.
\<close>

datatype jsval = JUndefined | JNull | JStr string | JNum int | JBool bool

text \<open>
  A row of \<open>customer_cases\<close> (interface \<open>CustomerCase\<close>). The columns that the
  modelled operations read or write are kept; the remaining descriptive columns
  (address, branch, dates and so on) are never touched by them.
\<close>

record customer_case =
  case_id :: "string option"
  tenant_id :: string
  assigned_employee_id :: "string option"
  team_id :: "string option"
  telecaller_id :: "string option"
  loan_id :: "string option"
  customer_name :: "string option"
  loan_amount :: "string option"
  outstanding_amount :: "string option"
  case_data :: "(string \<times> jsval) list option"
  case_status :: "string option"
  status :: "work_status option"
  total_collected_amount :: "rat option"
  updated_at :: "string option"

text \<open>
  A row of \<open>case_call_logs\<close> (interface \<open>CallLog\<close>). \<open>amount_collected\<close> holds the
  text \<open>String(amount)\<close>, kept here as the number it renders.
\<close>

record call_log =
  log_case_id :: string
  log_employee_id :: string
  call_status :: string
  ptp_date :: "string option"
  call_notes :: "string option"
  call_duration :: "nat option"
  amount_collected :: "jsnum option"

record employee =
  employee_uuid :: string
  employee_tenant_id :: string
  emp_id :: string
  role :: string
  employee_status :: string

record db =
  employees :: "employee list"
  customer_cases :: "customer_case list"
  case_call_logs :: "call_log list"

text \<open>
  The store is an external collaborator. Each call either takes effect or returns an
  error and changes nothing; which calls fail (a constraint of the schema, the
  network) is decided by the set of failing calls given to the operation.
\<close>

datatype db_call = SelectCase | InsertCallLog | UpdateCase | SelectEmployee | SelectTelecallers

text \<open>\<open>.single()\<close>: exactly one row, otherwise an error.\<close>

definition single :: "'a list \<Rightarrow> 'a option" where
  "single xs = (case xs of [x] \<Rightarrow> Some x | _ \<Rightarrow> None)"

definition select_case :: "db_call set \<Rightarrow> db \<Rightarrow> string \<Rightarrow> customer_case option" where
  "select_case faults d cid =
     (if SelectCase \<in> faults then None
      else single (filter (\<lambda>c. case_id c = Some cid) (customer_cases d)))"

definition insert_call_log :: "db_call set \<Rightarrow> db \<Rightarrow> call_log \<Rightarrow> db option" where
  "insert_call_log faults d entry =
     (if InsertCallLog \<in> faults then None
      else Some (d\<lparr>case_call_logs := case_call_logs d @ [entry]\<rparr>))"

definition apply_update :: "string \<Rightarrow> (customer_case \<Rightarrow> customer_case) \<Rightarrow> db \<Rightarrow> db" where
  "apply_update cid upd d =
     d\<lparr>customer_cases := map (\<lambda>r. if case_id r = Some cid then upd r else r) (customer_cases d)\<rparr>"

text \<open>\<open>.update(u).eq('id', cid).select().single()\<close>: the updated row, or an error.\<close>

definition update_case_single ::
  "db_call set \<Rightarrow> db \<Rightarrow> string \<Rightarrow> (customer_case \<Rightarrow> customer_case) \<Rightarrow> (customer_case \<times> db) option" where
  "update_case_single faults d cid upd =
     (if UpdateCase \<in> faults then None
      else case single (filter (\<lambda>c. case_id c = Some cid) (customer_cases d)) of
             None \<Rightarrow> None
           | Some c \<Rightarrow> Some (upd c, apply_update cid upd d))"

text \<open>\<open>.update(u).eq('id', cid)\<close> without a selection: no matching row is no error.\<close>

definition update_case_plain ::
  "db_call set \<Rightarrow> db \<Rightarrow> string \<Rightarrow> (customer_case \<Rightarrow> customer_case) \<Rightarrow> db option" where
  "update_case_plain faults d cid upd =
     (if UpdateCase \<in> faults then None else Some (apply_update cid upd d))"

section \<open>Payment ledger\<close>

datatype service_error =
    FetchCaseFailed          \<comment> \<open>Failed to fetch case details\<close>
  | PaymentLogFailed         \<comment> \<open>Failed to record payment log\<close>
  | UpdateCaseFailed         \<comment> \<open>Failed to update case\<close>
  | AddCallLogFailed         \<comment> \<open>Failed to add call log\<close>
  | TelecallerNotFound       \<comment> \<open>Failed to find telecaller details\<close>
  | AssignmentUpdateFailed   \<comment> \<open>Failed to update case assignment\<close>

definition payment_update :: "jsnum \<Rightarrow> bool \<Rightarrow> string \<Rightarrow> customer_case \<Rightarrow> customer_case" where
  "payment_update newTotalCollected shouldCloseCase now c =
     (let c1 = c\<lparr>total_collected_amount := json_number newTotalCollected, updated_at := Some now\<rparr>
      in if shouldCloseCase then c1\<lparr>case_status := Some ''closed'', status := Some Closed\<rparr> else c1)"

definition payment_log :: "string \<Rightarrow> string \<Rightarrow> jsnum \<Rightarrow> string \<Rightarrow> call_log" where
  "payment_log caseId employeeId amount notes =
     \<lparr>log_case_id = caseId, log_employee_id = employeeId,
      call_status = ''PAYMENT_RECEIVED'', ptp_date = None,
      call_notes = Some notes, call_duration = None,
      amount_collected = Some amount\<rparr>"

definition recordPayment ::
  "db_call set \<Rightarrow> string \<Rightarrow> db \<Rightarrow> string \<Rightarrow> string \<Rightarrow> jsnum \<Rightarrow> string
     \<Rightarrow> (service_error + customer_case) \<times> db" where
  "recordPayment faults now d caseId employeeId amount notes =
     (case select_case faults d caseId of
        None \<Rightarrow> (Inl FetchCaseFailed, d)
      | Some currentCase \<Rightarrow>
          let currentCollected = or_zero (total_collected_amount currentCase);
              newTotalCollected = js_add currentCollected amount;
              outstandingAmount = parseFloat (or_str (outstanding_amount currentCase) ''0'');
              remainingAmount = js_sub outstandingAmount newTotalCollected;
              shouldCloseCase = js_le remainingAmount (Fin 0)
          in case insert_call_log faults d (payment_log caseId employeeId amount notes) of
               None \<Rightarrow> (Inl PaymentLogFailed, d)
             | Some d1 \<Rightarrow>
                 (case update_case_single faults d1 caseId
                         (payment_update newTotalCollected shouldCloseCase now) of
                    None \<Rightarrow> (Inl UpdateCaseFailed, d1)
                  | Some (updatedCase, d2) \<Rightarrow> (Inr updatedCase, d2)))"

text \<open>The row that a payment of \<open>amount\<close> on the fetched row \<open>c\<close> writes back.\<close>

definition payment_outcome :: "customer_case \<Rightarrow> jsnum \<Rightarrow> string \<Rightarrow> customer_case" where
  "payment_outcome c amount now =
     payment_update (js_add (or_zero (total_collected_amount c)) amount)
       (js_le (js_sub (parseFloat (or_str (outstanding_amount c) ''0''))
                      (js_add (or_zero (total_collected_amount c)) amount)) (Fin 0)) now c"

text \<open>
  A sequence of \<open>recordPayment\<close> calls, each with its own failing store calls, time,
  case, employee, amount and notes; the result is the store after the last call.
\<close>

type_synonym payment_call = "db_call set \<times> string \<times> string \<times> string \<times> jsnum \<times> string"

fun run_payment :: "db \<Rightarrow> payment_call \<Rightarrow> db" where
  "run_payment d (faults, now, caseId, employeeId, amount, notes) =
     snd (recordPayment faults now d caseId employeeId amount notes)"

definition recordPayments :: "db \<Rightarrow> payment_call list \<Rightarrow> db" where
  "recordPayments d calls = foldl run_payment d calls"

fun call_amount :: "payment_call \<Rightarrow> jsnum" where
  "call_amount (faults, now, caseId, employeeId, amount, notes) = amount"

text \<open>
  The running total of the case with identifier \<open>k\<close> as a client reads it
  (\<open>total_collected_amount || 0\<close>); 0 when the store has no such case.
\<close>

definition read_total :: "db \<Rightarrow> string \<Rightarrow> jsnum" where
  "read_total d k =
     (case select_case {} d k of
        None \<Rightarrow> Fin 0
      | Some c \<Rightarrow> or_zero (total_collected_amount c))"

text \<open>
  A call stays in the range of the doubles on the store \<open>d\<close> when the total it reads
  and its amount are finite and their exact sum is at most the largest double.
\<close>

fun in_range :: "db \<Rightarrow> payment_call \<Rightarrow> bool" where
  "in_range d (faults, now, caseId, employeeId, amount, notes) =
     (case select_case faults d caseId of
        None \<Rightarrow> True
      | Some c \<Rightarrow>
          (case or_zero (total_collected_amount c) of
             Fin r \<Rightarrow> (case amount of Fin a \<Rightarrow> r + a \<le> max_double | _ \<Rightarrow> False)
           | _ \<Rightarrow> False))"

section \<open>Assignment engine\<close>

text \<open>
  \<open>CaseAssignment\<close>, as the callers build it. \<open>telecallerId\<close> is \<open>null\<close> (or the empty
  selection) for an unassignment.
\<close>

record case_assignment =
  assignment_caseId :: string
  telecallerId :: "string option"
  assignedBy :: string

definition select_employee :: "db_call set \<Rightarrow> db \<Rightarrow> string \<Rightarrow> employee option" where
  "select_employee faults d tid =
     (if SelectEmployee \<in> faults then None
      else single (filter (\<lambda>e. employee_uuid e = tid) (employees d)))"

text \<open>\<open>s || null\<close> on a string.\<close>

definition or_null :: "string \<Rightarrow> string option" where
  "or_null s = (if s = [] then None else Some s)"

definition assign_update :: "string option \<Rightarrow> string option \<Rightarrow> work_status \<Rightarrow> string
    \<Rightarrow> customer_case \<Rightarrow> customer_case" where
  "assign_update tid empId st now c =
     c\<lparr>telecaller_id := tid, updated_at := Some now, assigned_employee_id := empId,
       status := Some st\<rparr>"

definition submit_assignment :: "db_call set \<Rightarrow> db \<Rightarrow> string
    \<Rightarrow> (customer_case \<Rightarrow> customer_case) \<Rightarrow> (service_error + unit) \<times> db" where
  "submit_assignment faults d caseId updateData =
     (case update_case_plain faults d caseId updateData of
        None \<Rightarrow> (Inl AssignmentUpdateFailed, d)
      | Some d' \<Rightarrow> (Inr (), d'))"

definition assignCase :: "db_call set \<Rightarrow> string \<Rightarrow> db \<Rightarrow> string \<Rightarrow> case_assignment
    \<Rightarrow> (service_error + unit) \<times> db" where
  "assignCase faults now d caseId assignment =
     (case telecallerId assignment of
        Some tid \<Rightarrow>
          if tid \<noteq> [] then
            (case select_employee faults d tid of
               None \<Rightarrow> (Inl TelecallerNotFound, d)
             | Some telecaller \<Rightarrow>
                 submit_assignment faults d caseId
                   (assign_update (Some tid) (or_null (emp_id telecaller)) Assigned now))
          else submit_assignment faults d caseId (assign_update (Some tid) None New now)
      | None \<Rightarrow> submit_assignment faults d caseId (assign_update None None New now))"

section \<open>Call and status log\<close>

definition addCallLog :: "db_call set \<Rightarrow> db \<Rightarrow> call_log \<Rightarrow> (service_error + call_log) \<times> db" where
  "addCallLog faults d callLog =
     (case insert_call_log faults d callLog of
        None \<Rightarrow> (Inl AddCallLogFailed, d)
      | Some d' \<Rightarrow> (Inr callLog, d'))"

definition updateCase :: "db_call set \<Rightarrow> db \<Rightarrow> string \<Rightarrow> (customer_case \<Rightarrow> customer_case)
    \<Rightarrow> (service_error + customer_case) \<times> db" where
  "updateCase faults d caseId updates =
     (case update_case_single faults d caseId updates of
        None \<Rightarrow> (Inl UpdateCaseFailed, d)
      | Some (c, d') \<Rightarrow> (Inr c, d'))"

text \<open>The notification that the status form shows when the handler returns.\<close>

datatype notification =
    MissingInformation     \<comment> \<open>Missing case or user information\<close>
  | RequiredFields         \<comment> \<open>Please fill in all required fields\<close>
  | PtpDateRequired        \<comment> \<open>PTP Date is required for Promise to Pay\<close>
  | SaveFailed             \<comment> \<open>Failed to save status update\<close>
  | StatusSaved            \<comment> \<open>Status update saved successfully\<close>

definition ptpDateTime :: "string \<Rightarrow> string \<Rightarrow> string option" where
  "ptpDateTime ptpDate ptpTime =
     (if ptpDate \<noteq> [] \<and> ptpTime \<noteq> [] then Some (ptpDate @ ''T'' @ ptpTime @ '':00'')
      else if ptpDate \<noteq> [] then Some (ptpDate @ ''T00:00:00'')
      else None)"

definition status_log :: "string \<Rightarrow> string \<Rightarrow> string \<Rightarrow> string \<Rightarrow> string \<Rightarrow> string \<Rightarrow> call_log" where
  "status_log caseId userId callStatus ptpDate ptpTime remarks =
     \<lparr>log_case_id = caseId, log_employee_id = userId, call_status = callStatus,
      ptp_date = ptpDateTime ptpDate ptpTime, call_notes = Some remarks,
      call_duration = None, amount_collected = None\<rparr>"

definition in_progress_update :: "string \<Rightarrow> customer_case \<Rightarrow> customer_case" where
  "in_progress_update now c = c\<lparr>status := Some InProgress, updated_at := Some now\<rparr>"

text \<open>
  The submit handler of the status form. \<open>caseData\<close> is the case shown (or none),
  \<open>userId\<close> the identifier of the signed-in user (empty when absent); the form fields
  are the call status, the promise date and time and the remarks.
\<close>

definition handleStatusUpdateSubmit :: "db_call set \<Rightarrow> string \<Rightarrow> db \<Rightarrow> customer_case option
    \<Rightarrow> string \<Rightarrow> string \<Rightarrow> string \<Rightarrow> string \<Rightarrow> string \<Rightarrow> notification \<times> db" where
  "handleStatusUpdateSubmit faults now d caseData userId callStatus ptpDate ptpTime remarks =
     (case (case caseData of None \<Rightarrow> None | Some c \<Rightarrow> case_id c) of
        None \<Rightarrow> (MissingInformation, d)
      | Some caseId \<Rightarrow>
          if caseId = [] \<or> userId = [] then (MissingInformation, d)
          else if callStatus = [] \<or> trim remarks = [] then (RequiredFields, d)
          else if (callStatus = ''PTP'' \<or> callStatus = ''FUTURE_PTP'') \<and> ptpDate = []
            then (PtpDateRequired, d)
          else
            (case addCallLog faults d (status_log caseId userId callStatus ptpDate ptpTime remarks) of
               (Inl e, d1) \<Rightarrow> (SaveFailed, d1)
             | (Inr savedLog, d1) \<Rightarrow>
                 (case updateCase faults d1 caseId (in_progress_update now) of
                    (Inl e, d2) \<Rightarrow> (SaveFailed, d2)
                  | (Inr c, d2) \<Rightarrow> (StatusSaved, d2))))"

text \<open>
  The position of a working status in the life cycle
  \<open>new\<close>, \<open>assigned\<close>, \<open>in_progress\<close>, \<open>closed\<close>.
\<close>

fun status_rank :: "work_status \<Rightarrow> nat" where
  "status_rank New = 0"
| "status_rank Assigned = 1"
| "status_rank InProgress = 2"
| "status_rank Closed = 3"

section \<open>Bulk reconciliation\<close>

subsection \<open>Truthiness and text of a value\<close>

fun truthy :: "jsval \<Rightarrow> bool" where
  "truthy JUndefined = False"
| "truthy JNull = False"
| "truthy (JStr s) = (s \<noteq> [])"
| "truthy (JNum n) = (n \<noteq> 0)"
| "truthy (JBool b) = b"

definition digit_char :: "nat \<Rightarrow> char" where
  "digit_char n = ''0123456789'' ! n"

fun show_nat :: "nat \<Rightarrow> string" where
  "show_nat n = (if n < 10 then [digit_char n] else show_nat (n div 10) @ [digit_char (n mod 10)])"

declare show_nat.simps [simp del]

definition show_int :: "int \<Rightarrow> string" where
  "show_int i = (if i < 0 then CHR ''-'' # show_nat (nat (- i)) else show_nat (nat i))"

text \<open>\<open>String(v)\<close>, which is also \<open>v.toString()\<close> on a string, number or boolean.\<close>

fun js_String :: "jsval \<Rightarrow> string" where
  "js_String JUndefined = ''undefined''"
| "js_String JNull = ''null''"
| "js_String (JStr s) = s"
| "js_String (JNum n) = show_int n"
| "js_String (JBool b) = (if b then ''true'' else ''false'')"

subsection \<open>createBulkCases\<close>

text \<open>
  The telecallers of the tenant of the first row, with role \<open>Telecaller\<close> and status
  \<open>active\<close>; the query's error is ignored by the code and leaves no data.
\<close>

definition select_telecallers :: "db_call set \<Rightarrow> db \<Rightarrow> string option \<Rightarrow> employee list option" where
  "select_telecallers faults d tenant =
     (if SelectTelecallers \<in> faults then None
      else Some (filter (\<lambda>e. Some (employee_tenant_id e) = tenant \<and> role e = ''Telecaller''
                             \<and> employee_status e = ''active'') (employees d)))"

definition telecallerMap :: "employee list option \<Rightarrow> (string \<rightharpoonup> string)" where
  "telecallerMap telecallers =
     (case telecallers of
        None \<Rightarrow> Map.empty
      | Some ts \<Rightarrow> foldl (\<lambda>m tel. m(emp_id tel \<mapsto> employee_uuid tel)) Map.empty ts)"

text \<open>\<open>caseData.case_data?.EMPID\<close>\<close>

definition case_EMPID :: "customer_case \<Rightarrow> jsval" where
  "case_EMPID caseData =
     (case case_data caseData of
        None \<Rightarrow> JUndefined
      | Some kvs \<Rightarrow> (case map_of kvs ''EMPID'' of None \<Rightarrow> JUndefined | Some v \<Rightarrow> v))"

text \<open>
  The assignment branch of the loop body: the row as it is sent to the store, and
  whether the auto-assigned counter (otherwise the unassigned counter) is incremented.
\<close>

definition auto_assign :: "(string \<rightharpoonup> string) \<Rightarrow> customer_case \<Rightarrow> customer_case \<times> bool" where
  "auto_assign tmap caseData =
     (if truthy (case_EMPID caseData) \<and> tmap (js_String (case_EMPID caseData)) \<noteq> None then
        (caseData\<lparr>telecaller_id := tmap (js_String (case_EMPID caseData)),
                  assigned_employee_id := Some (js_String (case_EMPID caseData)),
                  status := Some Assigned\<rparr>, True)
      else
        (caseData\<lparr>telecaller_id := None, assigned_employee_id := None, status := Some New\<rparr>,
         False))"

record upload_error =
  error_row :: nat
  error_message :: string
  error_data :: customer_case

record case_upload_result =
  totalUploaded :: nat
  autoAssigned :: nat
  unassigned :: nat
  errors :: "upload_error list"

text \<open>
  The upsert keyed by tenant and loan identifier belongs to the store; the operation
  takes it as a function of the store and the row. It stores the row, returns an error
  or throws, and gives the store afterwards.
\<close>

datatype upsert_outcome = UpsertOk | UpsertError string | UpsertThrown string

definition count_assignment :: "bool \<Rightarrow> case_upload_result \<Rightarrow> case_upload_result" where
  "count_assignment assigned res =
     (if assigned then res\<lparr>autoAssigned := autoAssigned res + 1\<rparr>
      else res\<lparr>unassigned := unassigned res + 1\<rparr>)"

definition count_outcome :: "upsert_outcome \<Rightarrow> nat \<Rightarrow> customer_case \<Rightarrow> case_upload_result
    \<Rightarrow> case_upload_result" where
  "count_outcome outcome i caseData res =
     (case outcome of
        UpsertOk \<Rightarrow> res\<lparr>totalUploaded := totalUploaded res + 1\<rparr>
      | UpsertError msg \<Rightarrow>
          res\<lparr>errors := errors res @ [\<lparr>error_row = i + 1, error_message = msg, error_data = caseData\<rparr>]\<rparr>
      | UpsertThrown msg \<Rightarrow>
          res\<lparr>errors := errors res @ [\<lparr>error_row = i + 1, error_message = msg, error_data = caseData\<rparr>]\<rparr>)"

fun bulk_loop :: "(string \<rightharpoonup> string) \<Rightarrow> (db \<Rightarrow> customer_case \<Rightarrow> upsert_outcome \<times> db) \<Rightarrow> nat
    \<Rightarrow> customer_case list \<Rightarrow> case_upload_result \<times> db \<Rightarrow> case_upload_result \<times> db" where
  "bulk_loop tmap upsert i [] acc = acc"
| "bulk_loop tmap upsert i (caseData # rest) (res, d) =
     bulk_loop tmap upsert (i + 1) rest
       (count_outcome (fst (upsert d (fst (auto_assign tmap caseData)))) i
          (fst (auto_assign tmap caseData))
          (count_assignment (snd (auto_assign tmap caseData)) res),
        snd (upsert d (fst (auto_assign tmap caseData))))"

definition createBulkCases :: "db_call set \<Rightarrow> (db \<Rightarrow> customer_case \<Rightarrow> upsert_outcome \<times> db) \<Rightarrow> db
    \<Rightarrow> customer_case list \<Rightarrow> case_upload_result \<times> db" where
  "createBulkCases faults upsert d cases =
     bulk_loop
       (telecallerMap (select_telecallers faults d
          (case cases of [] \<Rightarrow> None | c # _ \<Rightarrow> Some (tenant_id c))))
       upsert 0 cases
       (\<lparr>totalUploaded = 0, autoAssigned = 0, unassigned = 0, errors = []\<rparr>, d)"

section \<open>Spreadsheet import\<close>

text \<open>
  \<open>ColumnConfiguration\<close>; only the internal key and the display label take part in the
  header mapping.
\<close>

record column_configuration =
  column_name :: string
  display_name :: string

datatype parse_error =
    EmptyFile             \<comment> \<open>Excel file is empty or has no data rows\<close>
  | EmpIdColumnNotFound   \<comment> \<open>EMPID column not found in Excel file ...\<close>
  | NoColumnsMatch        \<comment> \<open>No columns in the Excel file match ...\<close>

text \<open>\<open>row[i]\<close>: \<open>undefined\<close> past the end of the row.\<close>

definition cell_at :: "jsval list \<Rightarrow> nat \<Rightarrow> jsval" where
  "cell_at row i = (if i < length row then row ! i else JUndefined)"

text \<open>\<open>String(h || '').toLowerCase().trim()\<close>\<close>

definition header_key :: "jsval \<Rightarrow> string" where
  "header_key h = trim (toLowerCase (js_String (if truthy h then h else JStr [])))"

fun findIndex :: "('a \<Rightarrow> bool) \<Rightarrow> 'a list \<Rightarrow> nat option" where
  "findIndex P [] = None"
| "findIndex P (x # xs) = (if P x then Some 0 else map_option Suc (findIndex P xs))"

definition find_column :: "column_configuration list \<Rightarrow> string \<Rightarrow> column_configuration option" where
  "find_column columns headerStr =
     List.find (\<lambda>col. trim (toLowerCase (display_name col)) = trim (toLowerCase headerStr)) columns"

text \<open>
  The headers that map to a configured column, with their index and internal key, in
  header order: every header other than the EMPID column that is not empty and whose
  text matches a display label.
\<close>

definition mapped_headers :: "column_configuration list \<Rightarrow> jsval list \<Rightarrow> nat \<Rightarrow> (nat \<times> string) list" where
  "mapped_headers columns headers empIdIndex =
     List.map_filter
       (\<lambda>(i, h). if i \<noteq> empIdIndex \<and> truthy h
                  then map_option (\<lambda>col. (i, column_name col)) (find_column columns (js_String h))
                  else None)
       (enumerate 0 headers)"

text \<open>\<open>rowData[key] = v\<close> on an object: a present key keeps its place.\<close>

fun set_key :: "string \<Rightarrow> string \<Rightarrow> (string \<times> string) list \<Rightarrow> (string \<times> string) list" where
  "set_key k v [] = [(k, v)]"
| "set_key k v ((k', v') # kvs) = (if k = k' then (k, v) # kvs else (k', v') # set_key k v kvs)"

definition cell_text :: "jsval \<Rightarrow> string" where
  "cell_text v = (if v = JUndefined \<or> v = JNull then [] else trim (js_String v))"

definition build_row :: "(nat \<times> string) list \<Rightarrow> nat \<Rightarrow> jsval list \<Rightarrow> (string \<times> string) list" where
  "build_row mapped empIdIndex row =
     foldl (\<lambda>rowData (i, key). set_key key (cell_text (cell_at row i)) rowData)
       [(''EMPID'', trim (js_String (cell_at row empIdIndex)))] mapped"

text \<open>
  \<open>parseExcelFile\<close> from the point where the first sheet has been read into
  \<open>jsonData\<close>, an array of rows of cells, the header row first.
\<close>

definition parseExcelFile :: "jsval list list \<Rightarrow> column_configuration list
    \<Rightarrow> parse_error + (string \<times> string) list list" where
  "parseExcelFile jsonData columns =
     (if length jsonData < 2 then Inl EmptyFile
      else
        (case findIndex (\<lambda>h. header_key h = ''empid'') (hd jsonData) of
           None \<Rightarrow> Inl EmpIdColumnNotFound
         | Some empIdIndex \<Rightarrow>
             if mapped_headers columns (hd jsonData) empIdIndex = [] then Inl NoColumnsMatch
             else Inr (map (build_row (mapped_headers columns (hd jsonData) empIdIndex) empIdIndex)
                        (filter (\<lambda>row. row \<noteq> [] \<and> truthy (cell_at row empIdIndex)) (tl jsonData)))))"

section \<open>Sample data\<close>

definition sample_telecaller :: employee where
  "sample_telecaller =
     \<lparr>employee_uuid = ''u1'', employee_tenant_id = ''t1'', emp_id = ''E1'',
      role = ''Telecaller'', employee_status = ''active''\<rparr>"

text \<open>A telecaller whose employee-id-string is empty (the column is only \<open>NOT NULL\<close>).\<close>

definition blank_telecaller :: employee where
  "blank_telecaller =
     \<lparr>employee_uuid = ''u2'', employee_tenant_id = ''t1'', emp_id = [],
      role = ''Telecaller'', employee_status = ''active''\<rparr>"

text \<open>Outstanding 1000, collected 800, assigned and pending.\<close>

definition sample_case :: customer_case where
  "sample_case =
     \<lparr>case_id = Some ''c1'', tenant_id = ''t1'', assigned_employee_id = Some ''E1'',
      team_id = None, telecaller_id = Some ''u1'', loan_id = Some ''LN1'',
      customer_name = Some ''A'', loan_amount = Some ''5000'',
      outstanding_amount = Some ''1000'', case_data = None, case_status = Some ''pending'',
      status = Some Assigned, total_collected_amount = Some 800, updated_at = None\<rparr>"

definition sample_db :: db where
  "sample_db =
     \<lparr>employees = [sample_telecaller], customer_cases = [sample_case], case_call_logs = []\<rparr>"

text \<open>The same case after closure.\<close>

definition closed_case :: customer_case where
  "closed_case =
     sample_case\<lparr>case_status := Some ''closed'', status := Some Closed,
                 total_collected_amount := Some 1000\<rparr>"

definition closed_db :: db where
  "closed_db =
     \<lparr>employees = [sample_telecaller], customer_cases = [closed_case], case_call_logs = []\<rparr>"

text \<open>A case whose outstanding amount is missing, and one whose amount is not a number.\<close>

definition unknown_case :: customer_case where
  "unknown_case = sample_case\<lparr>outstanding_amount := None, total_collected_amount := Some 0\<rparr>"

definition unknown_db :: db where
  "unknown_db =
     \<lparr>employees = [sample_telecaller], customer_cases = [unknown_case], case_call_logs = []\<rparr>"

definition garbled_case :: customer_case where
  "garbled_case = sample_case\<lparr>outstanding_amount := Some ''n/a'', total_collected_amount := Some 0\<rparr>"

definition garbled_db :: db where
  "garbled_db =
     \<lparr>employees = [sample_telecaller], customer_cases = [garbled_case], case_call_logs = []\<rparr>"




text \<open>A running total of $2^{1023}$, a finite double.\<close>

definition large_case :: customer_case where
  "large_case = sample_case\<lparr>total_collected_amount := Some (2 ^ 1023)\<rparr>"

definition large_db :: db where
  "large_db =
     \<lparr>employees = [sample_telecaller], customer_cases = [large_case], case_call_logs = []\<rparr>"

text \<open>Rows of an upload, with the EMPID as the import stores it in \<open>case_data\<close>.\<close>

definition upload_row :: "string \<Rightarrow> string \<Rightarrow> customer_case" where
  "upload_row loan empid =
     \<lparr>case_id = None, tenant_id = ''t1'', assigned_employee_id = None, team_id = None,
      telecaller_id = None, loan_id = Some loan, customer_name = Some ''A'', loan_amount = None,
      outstanding_amount = None, case_data = Some [(''EMPID'', JStr empid)],
      case_status = None, status = None, total_collected_amount = None, updated_at = None\<rparr>"

text \<open>A store that rejects every upsert, and one that appends every row it is given.\<close>

definition rejecting_upsert :: "db \<Rightarrow> customer_case \<Rightarrow> upsert_outcome \<times> db" where
  "rejecting_upsert d c = (UpsertError ''violates constraint'', d)"

definition appending_upsert :: "db \<Rightarrow> customer_case \<Rightarrow> upsert_outcome \<times> db" where
  "appending_upsert d c = (UpsertOk, d\<lparr>customer_cases := customer_cases d @ [c]\<rparr>)"

definition empty_db :: db where
  "empty_db = \<lparr>employees = [sample_telecaller], customer_cases = [], case_call_logs = []\<rparr>"

definition blank_roster_db :: db where
  "blank_roster_db = \<lparr>employees = [blank_telecaller], customer_cases = [], case_call_logs = []\<rparr>"

text \<open>An active telecaller of a second tenant, and a row of that tenant.\<close>

definition other_telecaller :: employee where
  "other_telecaller =
     \<lparr>employee_uuid = ''u7'', employee_tenant_id = ''t2'', emp_id = ''E7'',
      role = ''Telecaller'', employee_status = ''active''\<rparr>"

definition two_tenant_db :: db where
  "two_tenant_db =
     \<lparr>employees = [sample_telecaller, other_telecaller], customer_cases = [], case_call_logs = []\<rparr>"

definition other_tenant_row :: "string \<Rightarrow> string \<Rightarrow> customer_case" where
  "other_tenant_row loan empid = (upload_row loan empid)\<lparr>tenant_id := ''t2''\<rparr>"

text \<open>
  An inactive telecaller and a team incharge of the first tenant; a store with the four
  employees, and an upload of the first tenant that names each of them and nobody.
\<close>

definition inactive_telecaller :: employee where
  "inactive_telecaller =
     \<lparr>employee_uuid = ''u3'', employee_tenant_id = ''t1'', emp_id = ''E3'',
      role = ''Telecaller'', employee_status = ''inactive''\<rparr>"

definition team_incharge :: employee where
  "team_incharge =
     \<lparr>employee_uuid = ''u4'', employee_tenant_id = ''t1'', emp_id = ''E4'',
      role = ''TeamIncharge'', employee_status = ''active''\<rparr>"

definition roster_db :: db where
  "roster_db =
     \<lparr>employees = [sample_telecaller, inactive_telecaller, team_incharge, other_telecaller],
      customer_cases = [], case_call_logs = []\<rparr>"

definition sample_upload :: "customer_case list" where
  "sample_upload =
     [upload_row ''LN1'' ''E9'', upload_row ''LN2'' ''E1'', upload_row ''LN3'' ''E3'',
      upload_row ''LN4'' ''E4'', upload_row ''LN5'' ''E7'']"

text \<open>Three payments on the sample case; the store refuses the update of the last one.\<close>

definition sample_calls :: "payment_call list" where
  "sample_calls =
     [({}, ''2025-11-24'', ''c1'', ''u1'', Fin 100, ''first''),
      ({}, ''2025-11-25'', ''c1'', ''u1'', Fin 50, ''second''),
      ({UpdateCase}, ''2025-11-26'', ''c1'', ''u1'', Fin 25, ''third'')]"

text \<open>Column configuration and sheets.\<close>

definition sample_columns :: "column_configuration list" where
  "sample_columns =
     [\<lparr>column_name = ''loanId'', display_name = ''Loan ID''\<rparr>,
      \<lparr>column_name = ''customerName'', display_name = ''Customer Name''\<rparr>]"

text \<open>The EMPID column is the second one.\<close>

definition sheet_empid_second :: "jsval list list" where
  "sheet_empid_second =
     [[JStr ''Loan ID'', JStr ''EMPID''],
      [JStr ''LN1'', JStr ''E1'']]"

text \<open>No header is EMPID; one data row, and no data row.\<close>

definition sheet_without_empid :: "jsval list list" where
  "sheet_without_empid =
     [[JStr ''Loan ID'', JStr ''Customer Name''],
      [JStr ''LN1'', JStr ''A'']]"

definition sheet_header_only :: "jsval list list" where
  "sheet_header_only = [[JStr ''Loan ID'', JStr ''Customer Name'']]"

text \<open>Three data rows; the EMPID cell of the second is empty, that of the third is missing.\<close>

definition sheet_with_gaps :: "jsval list list" where
  "sheet_with_gaps =
     [[JStr ''EMPID'', JStr ''Loan ID''],
      [JStr ''E1'', JStr ''LN1''],
      [JStr [], JStr ''LN2''],
      [JUndefined, JStr ''LN3'']]"

section \<open>Properties of the rounding\<close>

subsection \<open>Rounding to the nearest integer\<close>

lemma rhe_of_int [simp]: "round_half_even (of_int j) = j"
  by (simp add: round_half_even_def)

lemma rhe_bounds: "\<lfloor>x\<rfloor> \<le> round_half_even x \<and> round_half_even x \<le> \<lfloor>x\<rfloor> + 1"
  by (simp add: round_half_even_def)

lemma rhe_mono:
  assumes "x \<le> y"
  shows "round_half_even x \<le> round_half_even y"
proof (cases "\<lfloor>x\<rfloor> = \<lfloor>y\<rfloor>")
  case True
  then have "x - of_int \<lfloor>x\<rfloor> \<le> y - of_int \<lfloor>y\<rfloor>"
    using assms by simp
  then show ?thesis
    unfolding round_half_even_def using True by auto
next
  case False
  then have "\<lfloor>x\<rfloor> < \<lfloor>y\<rfloor>"
    using floor_mono[OF assms] by linarith
  then show ?thesis
    using rhe_bounds[of x] rhe_bounds[of y] by linarith
qed

lemma rhe_le: "x \<le> of_int j \<Longrightarrow> round_half_even x \<le> j"
  using rhe_mono[of x "of_int j"] by simp

lemma rhe_ge: "of_int j \<le> x \<Longrightarrow> j \<le> round_half_even x"
  using rhe_mono[of "of_int j" x] by simp

subsection \<open>Rounding to 53 significant bits\<close>

lemma bitlen_mono: "x \<le> y \<Longrightarrow> bitlen x \<le> bitlen y"
  by (simp add: bitlen_def floorlog_mono)

lemma bitlen_eqI:
  assumes "2 ^ b \<le> n" "n < 2 ^ Suc b"
  shows "bitlen n = int (Suc b)"
proof (rule antisym)
  have "0 \<le> int (Suc b) \<and> n < 2 ^ nat (int (Suc b))"
    using assms(2) by (simp only: nat_int) simp
  then show "bitlen n \<le> int (Suc b)"
    by (simp only: bitlen_le_iff_power)
  have "int (Suc b) \<le> 0 \<or> 2 ^ (nat (int (Suc b)) - 1) \<le> n"
    using assms(1) by (simp only: nat_int) simp
  then show "int (Suc b) \<le> bitlen n"
    by (simp only: bitlen_ge_iff_power)
qed

lemma bitlen_geD:
  assumes "int (k + 53) \<le> bitlen m"
  shows "2 ^ (k + 52) \<le> m"
proof -
  from assms have "int (k + 53) \<le> 0 \<or> 2 ^ (nat (int (k + 53)) - 1) \<le> m"
    by (simp only: bitlen_ge_iff_power)
  moreover have "\<not> int (k + 53) \<le> 0"
    by simp
  moreover have "nat (int (k + 53)) - 1 = k + 52"
    by simp
  ultimately show ?thesis
    by simp
qed

text \<open>The shift of a scaled number: 0 below $2^{53}$, otherwise the bits beyond 53.\<close>

lemma shift_upper:
  assumes "0 \<le> n"
  shows "n < 2 ^ (nat (bitlen \<lfloor>n\<rfloor> - 53) + 53)"
proof -
  have "bitlen \<lfloor>n\<rfloor> \<le> int (nat (bitlen \<lfloor>n\<rfloor> - 53) + 53)"
    by simp
  then have "\<lfloor>n\<rfloor> < 2 ^ (nat (bitlen \<lfloor>n\<rfloor> - 53) + 53)"
    by (simp only: bitlen_le_iff_power nat_int)
  then show ?thesis
    by (simp add: floor_less_iff)
qed

lemma shift_lower:
  assumes "0 < nat (bitlen \<lfloor>n\<rfloor> - 53)"
  shows "2 ^ (nat (bitlen \<lfloor>n\<rfloor> - 53) + 52) \<le> n"
proof -
  define k where "k = nat (bitlen \<lfloor>n\<rfloor> - 53)"
  have "int (k + 53) \<le> bitlen \<lfloor>n\<rfloor>"
    using assms unfolding k_def by linarith
  then have "2 ^ (k + 52) \<le> \<lfloor>n\<rfloor>"
    by (rule bitlen_geD)
  then have "2 ^ (k + 52) \<le> n"
    by (simp add: le_floor_iff)
  then show ?thesis
    unfolding k_def .
qed

lemma round_scaled_upper:
  assumes "0 \<le> n"
  shows "round_scaled n \<le> 2 ^ (nat (bitlen \<lfloor>n\<rfloor> - 53) + 53)"
proof -
  let ?k = "nat (bitlen \<lfloor>n\<rfloor> - 53)"
  have "n / 2 ^ ?k \<le> 2 ^ 53"
    using shift_upper[OF assms] by (simp add: power_add divide_le_eq)
  then have "n / 2 ^ ?k \<le> of_int (2 ^ 53)"
    by simp
  then have "round_half_even (n / 2 ^ ?k) \<le> 2 ^ 53"
    by (rule rhe_le)
  then have "round_half_even (n / 2 ^ ?k) * 2 ^ ?k \<le> 2 ^ 53 * 2 ^ ?k"
    by (rule mult_right_mono) simp
  then show ?thesis
    by (simp add: round_scaled_def power_add mult.commute)
qed

lemma round_scaled_lower:
  assumes "0 < nat (bitlen \<lfloor>n\<rfloor> - 53)"
  shows "2 ^ (nat (bitlen \<lfloor>n\<rfloor> - 53) + 52) \<le> round_scaled n"
proof -
  let ?k = "nat (bitlen \<lfloor>n\<rfloor> - 53)"
  have "2 ^ 52 \<le> n / 2 ^ ?k"
    using shift_lower[OF assms] by (simp add: power_add le_divide_eq mult.commute)
  then have "of_int (2 ^ 52) \<le> n / 2 ^ ?k"
    by simp
  then have "2 ^ 52 \<le> round_half_even (n / 2 ^ ?k)"
    by (rule rhe_ge)
  then have "2 ^ 52 * 2 ^ ?k \<le> round_half_even (n / 2 ^ ?k) * 2 ^ ?k"
    by (rule mult_right_mono) simp
  then show ?thesis
    by (simp add: round_scaled_def power_add mult.commute)
qed

lemma round_scaled_nonneg: "0 \<le> n \<Longrightarrow> 0 \<le> round_scaled n"
  unfolding round_scaled_def
  by (intro mult_nonneg_nonneg rhe_ge) simp_all

lemma round_scaled_mono:
  assumes "0 \<le> n1" "n1 \<le> n2"
  shows "round_scaled n1 \<le> round_scaled n2"
proof -
  let ?k1 = "nat (bitlen \<lfloor>n1\<rfloor> - 53)" and ?k2 = "nat (bitlen \<lfloor>n2\<rfloor> - 53)"
  have k: "?k1 \<le> ?k2"
    using bitlen_mono[OF floor_mono[OF assms(2)]] by simp
  show ?thesis
  proof (cases "?k1 = ?k2")
    case True
    have "n1 / 2 ^ ?k2 \<le> n2 / 2 ^ ?k2"
      using assms(2) by (simp add: divide_right_mono)
    then have "round_half_even (n1 / 2 ^ ?k2) * 2 ^ ?k2 \<le> round_half_even (n2 / 2 ^ ?k2) * 2 ^ ?k2"
      by (intro mult_right_mono rhe_mono) simp_all
    then show ?thesis
      by (simp add: round_scaled_def True)
  next
    case False
    have lt: "?k1 < ?k2"
      using k False by (rule le_neq_trans)
    then have pos: "0 < ?k2"
      by simp
    have "round_scaled n1 \<le> 2 ^ (?k1 + 53)"
      by (rule round_scaled_upper[OF assms(1)])
    also have "(2::int) ^ (?k1 + 53) \<le> 2 ^ (?k2 + 52)"
    proof (rule power_increasing)
      show "?k1 + 53 \<le> ?k2 + 52"
        using lt by linarith
    qed simp
    also have "\<dots> \<le> round_scaled n2"
      by (rule round_scaled_lower[OF pos])
    finally show ?thesis .
  qed
qed

lemma round_scaled_dvd:
  assumes "2 ^ nat (bitlen r - 53) dvd r"
  shows "round_scaled (of_int r) = r"
proof -
  let ?k = "nat (bitlen r - 53)"
  from assms obtain q where q: "r = 2 ^ ?k * q"
    by (rule dvdE)
  have "rat_of_int r / 2 ^ ?k = of_int q"
    by (subst q) simp
  then have "round_half_even (rat_of_int r / 2 ^ ?k) * 2 ^ ?k = q * 2 ^ ?k"
    by simp
  also have "\<dots> = r"
    by (subst (2) q) simp
  finally show ?thesis
    by (simp add: round_scaled_def)
qed

lemma bitlen_one [simp]: "bitlen 1 = 1"
  using bitlen_eqI[of 0 1] by simp

lemma mantissa_dvd:
  assumes "0 \<le> m" "m < 2 ^ 53"
  shows "2 ^ nat (bitlen (m * 2 ^ k) - 53) dvd m * 2 ^ k"
proof (cases "m = 0")
  case True
  then show ?thesis by simp
next
  case False
  with assms have pos: "0 < m"
    by simp
  have "bitlen m \<le> 53"
    using assms(2) by (simp add: bitlen_le_iff_power)
  then have "nat (bitlen (m * 2 ^ k) - 53) \<le> k"
    using pos by simp
  then have "(2::int) ^ nat (bitlen (m * 2 ^ k) - 53) dvd 2 ^ k"
    by (rule le_imp_power_dvd)
  then show ?thesis
    by (rule dvd_mult)
qed

lemma round_scaled_idem:
  assumes "0 \<le> n"
  shows "round_scaled (of_int (round_scaled n)) = round_scaled n"
proof -
  define k where "k = nat (bitlen \<lfloor>n\<rfloor> - 53)"
  define m where "m = round_half_even (n / 2 ^ k)"
  have r: "round_scaled n = m * 2 ^ k"
    by (simp add: round_scaled_def k_def m_def)
  have m0: "0 \<le> m"
    unfolding m_def using assms by (intro rhe_ge) simp
  have "m * 2 ^ k \<le> 2 ^ (k + 53)"
    using round_scaled_upper[OF assms] by (simp add: r k_def)
  then have "m * 2 ^ k \<le> 2 ^ 53 * 2 ^ k"
    by (simp add: power_add mult.commute)
  then have m53: "m \<le> 2 ^ 53"
    by simp
  have "2 ^ nat (bitlen (m * 2 ^ k) - 53) dvd m * 2 ^ k"
  proof (cases "m = 2 ^ 53")
    case True
    have "bitlen (1 * 2 ^ (53 + k)) = bitlen 1 + int (53 + k)"
      by (rule bitlen_pow2) simp
    then have "bitlen (m * 2 ^ k) = 54 + int k"
      by (simp add: True power_add)
    then have "nat (bitlen (m * 2 ^ k) - 53) = Suc k"
      by simp
    then show ?thesis
      by (simp add: True)
  next
    case False
    with m53 have "m < 2 ^ 53"
      by simp
    with m0 show ?thesis
      by (rule mantissa_dvd)
  qed
  then show ?thesis
    unfolding r by (rule round_scaled_dvd)
qed

subsection \<open>Rounding to a double\<close>

lemma round_pos_nonneg: "0 \<le> x \<Longrightarrow> js_le (Fin 0) (round_pos x)"
  using round_scaled_nonneg[of "x * 2 ^ 1074"] by (simp add: round_pos_def)

lemma round_pos_mono:
  assumes "0 \<le> x" "x \<le> y"
  shows "js_le (round_pos x) (round_pos y)"
proof -
  have "round_scaled (x * 2 ^ 1074) \<le> round_scaled (y * 2 ^ 1074)"
    using assms by (intro round_scaled_mono) simp_all
  then show ?thesis
    by (simp add: round_pos_def divide_right_mono)
qed

lemma round_pos_not_NaN [simp]: "round_pos x \<noteq> NaN"
  by (simp add: round_pos_def)

lemma js_le_neg: "a \<noteq> NaN \<Longrightarrow> b \<noteq> NaN \<Longrightarrow> js_le (js_neg a) (js_neg b) = js_le b a"
  by (cases a; cases b) simp_all

lemma js_le_trans: "js_le a b \<Longrightarrow> js_le b c \<Longrightarrow> js_le a c"
  by (cases a; cases b; cases c) simp_all

lemma js_le_neg_zero: "js_le (Fin 0) a \<Longrightarrow> js_le (js_neg a) (Fin 0)"
  by (cases a) simp_all

lemma round64_mono:
  assumes "x \<le> y"
  shows "js_le (round64 x) (round64 y)"
proof (cases "0 \<le> x")
  case True
  with assms show ?thesis
    by (simp add: round64_def round_pos_mono)
next
  case False
  show ?thesis
  proof (cases "0 \<le> y")
    case True
    have "js_le (js_neg (round_pos (- x))) (Fin 0)"
      using False by (intro js_le_neg_zero round_pos_nonneg) simp
    moreover have "js_le (Fin 0) (round_pos y)"
      using True by (rule round_pos_nonneg)
    ultimately show ?thesis
      using False True by (simp add: round64_def js_le_trans)
  next
    case ny: False
    have "js_le (round_pos (- y)) (round_pos (- x))"
      using ny assms by (intro round_pos_mono) simp_all
    then show ?thesis
      using False ny by (simp add: round64_def js_le_neg)
  qed
qed

lemma round_pos_idem:
  assumes "0 \<le> x" "round_pos x = Fin v"
  shows "round_pos v = Fin v \<and> 0 \<le> v"
proof -
  let ?r = "round_scaled (x * 2 ^ 1074)"
  from assms(2) have small: "\<not> 2 ^ 2098 \<le> ?r" and v: "v = of_int ?r / 2 ^ 1074"
    by (auto simp: round_pos_def split: if_splits)
  have n: "0 \<le> x * 2 ^ 1074"
    using assms(1) by simp
  have "v * 2 ^ 1074 = of_int ?r"
    by (simp add: v)
  then have "round_scaled (v * 2 ^ 1074) = ?r"
    using round_scaled_idem[OF n] by simp
  moreover have "0 \<le> v"
    using round_scaled_nonneg[OF n] by (simp add: v)
  ultimately show ?thesis
    using small by (simp add: round_pos_def v)
qed

lemma round64_idem:
  assumes "round64 x = Fin v"
  shows "round64 v = Fin v"
proof (cases "0 \<le> x")
  case True
  with assms round_pos_idem[of x v] show ?thesis
    by (simp add: round64_def)
next
  case False
  from assms False obtain w where w: "round_pos (- x) = Fin w" "v = - w"
    by (cases "round_pos (- x)") (simp_all add: round64_def)
  from False have "0 \<le> - x"
    by simp
  from round_pos_idem[OF this w(1)] have i: "round_pos w = Fin w" "0 \<le> w"
    by simp_all
  show ?thesis
  proof (cases "w = 0")
    case True
    with i show ?thesis
      by (simp add: round64_def w(2))
  next
    case False
    with i show ?thesis
      by (simp add: round64_def w(2))
  qed
qed

lemma round64_nonneg: "0 \<le> x \<Longrightarrow> js_le (Fin 0) (round64 x)"
  by (simp add: round64_def round_pos_nonneg)

lemma round64_nonpos: "x \<le> 0 \<Longrightarrow> js_le (round64 x) (Fin 0)"
  using round64_mono[of x 0] round_scaled_dvd[of 0]
  by (simp add: round64_def round_pos_def)

lemma round64_not_NaN [simp]: "round64 x \<noteq> NaN"
  by (cases "round_pos (- x)") (simp_all add: round64_def)

lemma round64_mantissa:
  assumes "0 \<le> p" "p < 2 ^ 53"
  shows "round64 (of_int p * 2 ^ j)
     = (if (2::int) ^ 2098 \<le> p * 2 ^ (j + 1074) then PInf else Fin (of_int p * 2 ^ j))"
proof -
  have n: "rat_of_int p * 2 ^ j * 2 ^ 1074 = of_int (p * 2 ^ (j + 1074))"
    by (simp add: power_add)
  have r: "round_scaled (of_int (p * 2 ^ (j + 1074))) = p * 2 ^ (j + 1074)"
    by (rule round_scaled_dvd[OF mantissa_dvd[OF assms]])
  have v: "rat_of_int (p * 2 ^ (j + 1074)) / 2 ^ 1074 = of_int p * 2 ^ j"
    by (simp add: power_add)
  have "0 \<le> rat_of_int p * 2 ^ j"
    using assms(1) by simp
  then show ?thesis
    unfolding round64_def round_pos_def n r v by simp
qed

lemma round64_dyadic:
  assumes "0 \<le> p" "p < 2 ^ 53" "j \<le> 1074"
  shows "round64 (of_int p / 2 ^ j) = Fin (of_int p / 2 ^ j)"
proof -
  have s: "(2::rat) ^ 1074 = 2 ^ (1074 - j) * 2 ^ j"
    using assms(3) by (simp flip: power_add)
  have n: "rat_of_int p / 2 ^ j * 2 ^ 1074 = of_int (p * 2 ^ (1074 - j))"
    by (simp only: s) simp
  have r: "round_scaled (of_int (p * 2 ^ (1074 - j))) = p * 2 ^ (1074 - j)"
    by (rule round_scaled_dvd[OF mantissa_dvd[OF assms(1,2)]])
  have v: "rat_of_int (p * 2 ^ (1074 - j)) / 2 ^ 1074 = of_int p / 2 ^ j"
    by (simp only: s) simp
  have "p * 2 ^ (1074 - j) < 2 ^ 53 * 2 ^ (1074 - j)"
    using assms(2) by simp
  also have "\<dots> \<le> (2::int) ^ 53 * 2 ^ 1074"
    by (intro mult_left_mono power_increasing) simp_all
  also have "\<dots> < 2 ^ 2098"
    by (simp flip: power_add)
  finally have small: "\<not> 2 ^ 2098 \<le> p * 2 ^ (1074 - j)"
    by simp
  have "0 \<le> rat_of_int p / 2 ^ j"
    using assms(1) by simp
  then show ?thesis
    unfolding round64_def round_pos_def n r v using small by simp
qed



lemma js_neg_neg [simp]: "js_neg (js_neg a) = a"
  by (cases a) simp_all

lemma round64_neg: "round64 (- x) = js_neg (round64 x)"
proof -
  have "round_pos 0 = Fin 0"
    using round_scaled_dvd[of 0] by (simp add: round_pos_def)
  then show ?thesis
    by (simp add: round64_def)
qed

lemma round64_zero [simp]: "round64 0 = Fin 0"
  using round64_dyadic[of 0 0] by simp

lemma js_le_refl: "a \<noteq> NaN \<Longrightarrow> js_le a a"
  by (cases a) simp_all

lemma round64_max_double: "round64 max_double = Fin max_double"
proof -
  have "max_double = of_int (2 ^ 53 - 1) * 2 ^ 971"
    by (simp add: max_double_def)
  then show ?thesis
    using round64_mantissa[of "2 ^ 53 - 1" 971] by simp
qed

text \<open>A sum that does not exceed the largest double does not overflow.\<close>

lemma round64_in_range:
  assumes "x \<le> max_double"
  shows "round64 x \<noteq> PInf"
proof
  assume "round64 x = PInf"
  then have "js_le PInf (Fin max_double)"
    using round64_mono[OF assms] by (simp add: round64_max_double)
  then show False
    by simp
qed

section \<open>Properties of the store calls\<close>

lemma single_one [simp]: "single [x] = Some x"
  by (simp add: single_def)

lemma single_Some_iff: "single xs = Some x \<longleftrightarrow> xs = [x]"
  by (auto simp: single_def split: list.splits)

lemma filter_singletonD:
  assumes "filter P xs = [c]"
  shows "P c"
proof -
  have "c \<in> set (filter P xs)"
    by (simp add: assms)
  then show ?thesis
    by simp
qed

lemma select_case_SomeD:
  "select_case faults d cid = Some c \<Longrightarrow>
     SelectCase \<notin> faults \<and> filter (\<lambda>r. case_id r = Some cid) (customer_cases d) = [c]
     \<and> case_id c = Some cid"
  by (auto simp: select_case_def single_Some_iff split: if_splits dest: filter_singletonD)

lemma filter_id_map_update:
  assumes "\<And>r. case_id (upd r) = case_id r"
  shows "filter (\<lambda>r. case_id r = Some k) (map (\<lambda>r. if case_id r = Some cid then upd r else r) rows)
       = map (\<lambda>r. if case_id r = Some cid then upd r else r) (filter (\<lambda>r. case_id r = Some k) rows)"
  using assms by (induction rows) auto

lemma select_after_update:
  assumes "\<And>r. case_id (upd r) = case_id r"
    and "select_case {} d cid = Some c"
  shows "select_case {} (apply_update cid upd d) cid = Some (upd c)"
  using assms(2) select_case_SomeD[OF assms(2)]
  by (simp add: select_case_def apply_update_def filter_id_map_update[OF assms(1)])

lemma select_other_after_update:
  assumes "\<And>r. case_id (upd r) = case_id r"
    and "k \<noteq> cid"
  shows "select_case {} (apply_update cid upd d) k = select_case {} d k"
proof -
  have "map (\<lambda>r. if case_id r = Some cid then upd r else r) (filter (\<lambda>r. case_id r = Some k) rows)
      = filter (\<lambda>r. case_id r = Some k) rows" for rows
    using assms(2) by (induction rows) auto
  then show ?thesis
    by (simp add: select_case_def apply_update_def filter_id_map_update[OF assms(1)])
qed

lemma select_case_logs [simp]:
  "select_case faults (d\<lparr>case_call_logs := l\<rparr>) k = select_case faults d k"
  by (simp add: select_case_def)

lemma select_case_no_faults:
  "select_case faults d cid = Some c \<Longrightarrow> select_case {} d cid = Some c"
  by (simp add: select_case_def split: if_splits)

section \<open>Properties of the payment ledger\<close>

lemma payment_update_case_id [simp]: "case_id (payment_update t b now c) = case_id c"
  by (simp add: payment_update_def Let_def)

lemma recordPayment_cases:
  "recordPayment faults now d cid emp amount notes =
     (case select_case faults d cid of
        None \<Rightarrow> (Inl FetchCaseFailed, d)
      | Some c \<Rightarrow>
          if InsertCallLog \<in> faults then (Inl PaymentLogFailed, d)
          else if UpdateCase \<in> faults then
            (Inl UpdateCaseFailed,
             d\<lparr>case_call_logs := case_call_logs d @ [payment_log cid emp amount notes]\<rparr>)
          else (Inr (payment_outcome c amount now),
                apply_update cid
                  (payment_update (js_add (or_zero (total_collected_amount c)) amount)
                     (js_le (js_sub (parseFloat (or_str (outstanding_amount c) ''0''))
                               (js_add (or_zero (total_collected_amount c)) amount)) (Fin 0)) now)
                  (d\<lparr>case_call_logs := case_call_logs d @ [payment_log cid emp amount notes]\<rparr>)))"
  by (auto simp: recordPayment_def Let_def insert_call_log_def update_case_single_def
        payment_outcome_def single_Some_iff
      dest!: select_case_SomeD split: option.splits)


subsection \<open>Numbers of the samples\<close>

lemma round64_100: "round64 100 = Fin 100"
  using round64_dyadic[of 100 0] by simp

lemma round64_800: "round64 800 = Fin 800"
  using round64_dyadic[of 800 0] by simp

lemma round64_900: "round64 900 = Fin 900"
  using round64_dyadic[of 900 0] by simp

lemma round64_1000: "round64 1000 = Fin 1000"
  using round64_dyadic[of 1000 0] by simp





lemma round64_large: "round64 (2 ^ 1023) = Fin (2 ^ 1023)"
  using round64_mantissa[of 1 1023] by simp

lemma round64_overflow: "round64 (2 ^ 1023 + 2 ^ 1023) = PInf"
proof -
  have "(2::rat) ^ 1023 + 2 ^ 1023 = of_int 1 * 2 ^ 1024"
    by simp
  then show ?thesis
    using round64_mantissa[of 1 1024] by simp
qed

text \<open>A text of digits is read as the double nearest to the number it writes.\<close>

lemma is_digit_cases: "is_digit c \<longleftrightarrow> c \<in> set ''0123456789''"
  by (simp add: is_digit_def digit_val_def)

lemma parseFloat_digits:
  assumes "ds \<noteq> []" and "\<forall>c \<in> set ds. is_digit c"
  shows "parseFloat ds = round64 (of_nat (digits_val ds))"
proof -
  obtain c u where ds: "ds = c # u"
    using assms(1) by (cases ds) auto
  have c: "is_digit c"
    using assms(2) ds by simp
  then have plain: "\<not> is_space c" "c \<noteq> CHR ''-''" "c \<noteq> CHR ''+''" "c \<noteq> CHR ''I''"
    by (auto simp: is_digit_cases is_space_def)
  have all: "takeWhile is_digit (c # u) = c # u" "dropWhile is_digit (c # u) = []"
    using assms(2) ds by (simp_all add: takeWhile_eq_all_conv)
  have inf: "take 8 (c # u) \<noteq> ''Infinity''"
    using plain(4) by (simp add: take_Cons')
  have "parse_unsigned (c # u) = round64 (of_nat (digits_val (c # u)))"
    unfolding parse_unsigned_def Let_def all if_not_P[OF inf]
    by (simp add: exponent_part_def scale10_def digits_val_def)
  then show ?thesis
    using plain by (simp add: parseFloat_def ds)
qed

lemma parseFloat_0: "parseFloat ''0'' = Fin 0"
  by (simp add: parseFloat_def parse_unsigned_def is_space_def is_digit_def digit_val_def
        digits_val_def scale10_def exponent_part_def Let_def)

lemma parseFloat_1000: "parseFloat ''1000'' = Fin 1000"
  by (simp add: parseFloat_def parse_unsigned_def is_space_def is_digit_def digit_val_def
        digits_val_def scale10_def exponent_part_def Let_def round64_1000)


lemma parseFloat_garbled: "parseFloat ''n/a'' = NaN"
  by (simp add: parseFloat_def parse_unsigned_def is_space_def is_digit_def digit_val_def Let_def)

lemma select_sample: "select_case {} sample_db ''c1'' = Some sample_case"
  by (simp add: select_case_def sample_db_def sample_case_def)


lemma select_large: "select_case {} large_db ''c1'' = Some large_case"
  by (simp add: select_case_def large_db_def large_case_def sample_case_def)

subsection \<open>Total and closure\<close>

text \<open>A payment of $2^{1023}$ on a total of $2^{1023}$: the sum is not a double.\<close>

lemma recordPayment_overflow:
  "recordPayment {} ''2025-11-24'' large_db ''c1'' ''u1'' (Fin (2 ^ 1023)) ''paid''
      = (Inr (large_case\<lparr>total_collected_amount := None, updated_at := Some ''2025-11-24'',
                          case_status := Some ''closed'', status := Some Closed\<rparr>),
         apply_update ''c1'' (payment_update PInf True ''2025-11-24'')
           (large_db\<lparr>case_call_logs := case_call_logs large_db
               @ [payment_log ''c1'' ''u1'' (Fin (2 ^ 1023)) ''paid'']\<rparr>))"
proof -
  have cur: "or_zero (total_collected_amount large_case) = Fin (2 ^ 1023)"
    by (simp add: or_zero_def large_case_def round64_large del: power_numeral)
  have out: "parseFloat (or_str (outstanding_amount large_case) ''0'') = Fin 1000"
    by (simp add: large_case_def sample_case_def or_str_def parseFloat_1000)
  have sum: "js_add (Fin (2 ^ 1023)) (Fin (2 ^ 1023)) = PInf"
    by (simp only: js_add.simps round64_overflow)
  show ?thesis
    unfolding recordPayment_cases select_large option.case payment_outcome_def cur out sum
    by (simp add: js_sub_def payment_update_def)
qed




subsection \<open>The running total over a sequence of payments\<close>

lemma or_zero_not_NaN [simp]: "or_zero t \<noteq> NaN"
  by (simp add: or_zero_def split: option.splits)

lemma or_zero_idem: "or_zero t = Fin r \<Longrightarrow> round64 r = Fin r"
  by (auto simp: or_zero_def round64_idem split: option.splits)

lemma read_total_not_NaN [simp]: "read_total d k \<noteq> NaN"
  by (simp add: read_total_def split: option.splits)

lemma payment_update_total [simp]:
  "total_collected_amount (payment_update t close now c) = json_number t"
  by (simp add: payment_update_def Let_def)

lemma read_total_logs [simp]:
  "read_total (d\<lparr>case_call_logs := l\<rparr>) k = read_total d k"
  by (simp add: read_total_def)

text \<open>A sum in the range of the doubles rounds to a double that is not below the total.\<close>

lemma sum_not_below:
  assumes r: "round64 r = Fin r" and a: "0 < a" and m: "r + a \<le> max_double"
  shows "\<exists>v. round64 (r + a) = Fin v \<and> r \<le> v \<and> round64 v = Fin v"
proof -
  have le: "js_le (Fin r) (round64 (r + a))"
    using round64_mono[of r "r + a"] a by (simp add: r)
  have "round64 (r + a) \<noteq> PInf"
    by (rule round64_in_range[OF m])
  with le obtain v where v: "round64 (r + a) = Fin v"
    by (cases "round64 (r + a)") simp_all
  with le have "r \<le> v"
    by simp
  with v round64_idem[OF v] show ?thesis
    by blast
qed

lemma recordPayment_monotone:
  assumes pos: "0 < a"
    and range: "in_range d (faults, now, cid, emp, Fin a, nts)"
  shows "js_le (read_total d k) (read_total (snd (recordPayment faults now d cid emp (Fin a) nts)) k)"
proof (cases "select_case faults d cid")
  case None
  then show ?thesis
    by (simp add: recordPayment_cases js_le_refl)
next
  case (Some c)
  let ?d1 = "d\<lparr>case_call_logs := case_call_logs d @ [payment_log cid emp (Fin a) nts]\<rparr>"
  let ?upd = "payment_update (js_add (or_zero (total_collected_amount c)) (Fin a))
                (js_le (js_sub (parseFloat (or_str (outstanding_amount c) ''0''))
                          (js_add (or_zero (total_collected_amount c)) (Fin a))) (Fin 0)) now"
  have sel0: "select_case {} ?d1 cid = Some c"
    using select_case_no_faults[OF Some] by simp
  show ?thesis
  proof (cases "InsertCallLog \<in> faults \<or> UpdateCase \<in> faults")
    case True
    then show ?thesis
      using Some by (auto simp: recordPayment_cases js_le_refl)
  next
    case False
    then have run: "snd (recordPayment faults now d cid emp (Fin a) nts) = apply_update cid ?upd ?d1"
      using Some by (simp add: recordPayment_cases)
    show ?thesis
    proof (cases "k = cid")
      case True
      from range Some obtain r where r: "or_zero (total_collected_amount c) = Fin r"
          and m: "r + a \<le> max_double"
        by (auto split: jsnum.splits)
      from sum_not_below[OF or_zero_idem[OF r] pos m] obtain v
        where v: "round64 (r + a) = Fin v" "r \<le> v" "round64 v = Fin v"
        by blast
      have after: "select_case {} (apply_update cid ?upd ?d1) cid = Some (?upd c)"
        by (rule select_after_update[OF payment_update_case_id sel0])
      have s: "js_add (or_zero (total_collected_amount c)) (Fin a) = Fin v"
        by (simp add: r v)
      have tot: "or_zero (total_collected_amount (?upd c)) = Fin v"
        unfolding payment_update_total s by (simp add: or_zero_def v(3))
      have before: "read_total d cid = Fin r"
        using select_case_no_faults[OF Some] by (simp add: read_total_def r)
      have "read_total (apply_update cid ?upd ?d1) cid = Fin v"
        by (simp only: read_total_def after option.case tot)
      then show ?thesis
        using v(2) by (simp add: True run before)
    next
      case False
      have "select_case {} (apply_update cid ?upd ?d1) k = select_case {} ?d1 k"
        by (rule select_other_after_update[OF payment_update_case_id False])
      then show ?thesis
        by (simp add: run read_total_def js_le_refl split: option.splits)
    qed
  qed
qed

lemma recordPayments_snoc:
  "recordPayments d (calls @ [p]) = run_payment (recordPayments d calls) p"
  by (simp add: recordPayments_def)

text \<open>
  C4, as stated, fails: on a case whose running total is the finite double $2^{1023}$,
  a payment of the finite positive amount $2^{1023}$ overflows the sum; the total is
  stored as \<open>null\<close> and read as 0 afterwards.
\<close>

theorem total_collected_overflow_counterexample:
  "read_total large_db ''c1'' = Fin (2 ^ 1023)
   \<and> call_amount ({}, ''2025-11-24'', ''c1'', ''u1'', Fin (2 ^ 1023), ''paid'') = Fin (2 ^ 1023)
   \<and> (0 :: rat) < 2 ^ 1023
   \<and> read_total (recordPayments large_db [({}, ''2025-11-24'', ''c1'', ''u1'', Fin (2 ^ 1023), ''paid'')])
        ''c1'' = Fin 0
   \<and> \<not> js_le (Fin (2 ^ 1023)) (Fin 0)"
proof -
  have cur: "or_zero (total_collected_amount large_case) = Fin (2 ^ 1023)"
    by (simp add: or_zero_def large_case_def round64_large del: power_numeral)
  have before: "read_total large_db ''c1'' = Fin (2 ^ 1023)"
    by (simp only: read_total_def select_large option.case cur)
  have sel: "select_case {} (large_db\<lparr>case_call_logs := case_call_logs large_db
               @ [payment_log ''c1'' ''u1'' (Fin (2 ^ 1023)) ''paid'']\<rparr>) ''c1'' = Some large_case"
    using select_large by simp
  have after: "read_total (recordPayments large_db
      [({}, ''2025-11-24'', ''c1'', ''u1'', Fin (2 ^ 1023), ''paid'')]) ''c1'' = Fin 0"
    unfolding recordPayments_def foldl_Cons foldl_Nil run_payment.simps recordPayment_overflow
      snd_conv read_total_def
    by (simp only: select_after_update[OF payment_update_case_id sel] option.case
          payment_update_total json_number.simps or_zero_def)
  have "\<not> js_le (Fin (2 ^ 1023)) (Fin 0)" and "(0 :: rat) < 2 ^ 1023"
    by simp_all
  then show ?thesis
    using before after by simp
qed

text \<open>
  C4, amended. In every sequence of \<open>recordPayment\<close> calls whose amounts are finite
  and positive and none of which leaves the range of the doubles (the total it reads
  plus its amount is at most the largest double), whatever the cases they address and
  whichever store calls fail, the running total of every case, as read after a call,
  is at least the total read before that call.
\<close>

theorem total_collected_non_decreasing:
  assumes amounts: "\<forall>p \<in> set calls. \<exists>a. call_amount p = Fin a \<and> 0 < a"
    and range: "\<forall>i < length calls. in_range (recordPayments d (take i calls)) (calls ! i)"
    and i: "i < length calls"
  shows "js_le (read_total (recordPayments d (take i calls)) k)
           (read_total (recordPayments d (take (Suc i) calls)) k)"
proof -
  obtain faults now cid emp amount nts
    where p: "calls ! i = (faults, now, cid, emp, amount, nts)"
    by (metis prod_cases6)
  from amounts i obtain a where a: "call_amount (calls ! i) = Fin a" "0 < a"
    by (meson nth_mem)
  have amount: "amount = Fin a"
    using a(1) p by simp
  have r: "in_range (recordPayments d (take i calls)) (faults, now, cid, emp, Fin a, nts)"
    using range i p amount by auto
  have "recordPayments d (take (Suc i) calls) = run_payment (recordPayments d (take i calls)) (calls ! i)"
    using i by (simp add: take_Suc_conv_app_nth recordPayments_snoc)
  then show ?thesis
    using recordPayment_monotone[OF a(2) r] by (simp add: p amount)
qed

theorem total_collected_non_decreasing_witness:
  "js_le (read_total (recordPayments sample_db (take 1 sample_calls)) ''c1'')
     (read_total (recordPayments sample_db (take (Suc 1) sample_calls)) ''c1'')
   \<and> js_le (read_total (recordPayments sample_db (take 2 sample_calls)) ''c1'')
     (read_total (recordPayments sample_db (take (Suc 2) sample_calls)) ''c1'')
   \<and> read_total (recordPayments sample_db (take 0 sample_calls)) ''c1'' = Fin 800
   \<and> read_total (recordPayments sample_db (take 1 sample_calls)) ''c1'' = Fin 900
   \<and> read_total (recordPayments sample_db (take 2 sample_calls)) ''c1'' = Fin 950
   \<and> read_total (recordPayments sample_db (take 3 sample_calls)) ''c1'' = Fin 950"
proof -
  let ?p0 = "({}, ''2025-11-24'', ''c1'', ''u1'', Fin 100, ''first'') :: payment_call"
  let ?p1 = "({}, ''2025-11-25'', ''c1'', ''u1'', Fin 50, ''second'') :: payment_call"
  let ?p2 = "({UpdateCase}, ''2025-11-26'', ''c1'', ''u1'', Fin 25, ''third'') :: payment_call"
  let ?c1 = "payment_update (Fin 900) False ''2025-11-24'' sample_case"
  let ?c2 = "payment_update (Fin 950) False ''2025-11-25'' ?c1"
  define d1 where "d1 = run_payment sample_db ?p0"
  define d2 where "d2 = run_payment d1 ?p1"
  define d3 where "d3 = run_payment d2 ?p2"
  have takes: "recordPayments sample_db (take 0 sample_calls) = sample_db"
    "recordPayments sample_db (take 1 sample_calls) = d1"
    "recordPayments sample_db (take 2 sample_calls) = d2"
    "recordPayments sample_db (take 3 sample_calls) = d3"
    "recordPayments sample_db (take (Suc 1) sample_calls) = d2"
    "recordPayments sample_db (take (Suc 2) sample_calls) = d3"
    by (simp_all add: recordPayments_def sample_calls_def d1_def d2_def d3_def
          numeral_2_eq_2 numeral_3_eq_3 del: run_payment.simps)
  have nths: "sample_calls ! 0 = ?p0" "sample_calls ! 1 = ?p1" "sample_calls ! 2 = ?p2"
    by (simp_all add: sample_calls_def)
  have cur0: "or_zero (total_collected_amount sample_case) = Fin 800"
    by (simp add: or_zero_def sample_case_def round64_800)
  have out0: "parseFloat (or_str (outstanding_amount sample_case) ''0'') = Fin 1000"
    by (simp add: sample_case_def or_str_def parseFloat_1000)
  have r950: "round64 950 = Fin 950" and r50: "round64 50 = Fin 50"
    using round64_dyadic[of 950 0] round64_dyadic[of 50 0] by simp_all
  have run1: "d1 = apply_update ''c1'' (payment_update (Fin 900) False ''2025-11-24'')
      (sample_db\<lparr>case_call_logs := case_call_logs sample_db
           @ [payment_log ''c1'' ''u1'' (Fin 100) ''first'']\<rparr>)"
    by (simp add: d1_def recordPayment_cases select_sample cur0 out0 js_sub_def
          round64_900 round64_100)
  have sel1: "select_case {} d1 ''c1'' = Some ?c1"
    unfolding run1 using select_sample
    by (intro select_after_update[OF payment_update_case_id]) simp
  have cur1: "or_zero (total_collected_amount ?c1) = Fin 900"
    by (simp add: or_zero_def round64_900)
  have out1: "parseFloat (or_str (outstanding_amount ?c1) ''0'') = Fin 1000"
    using out0 by (simp add: payment_update_def)
  have run2: "d2 = apply_update ''c1'' (payment_update (Fin 950) False ''2025-11-25'')
      (d1\<lparr>case_call_logs := case_call_logs d1
           @ [payment_log ''c1'' ''u1'' (Fin 50) ''second'']\<rparr>)"
    unfolding d2_def run_payment.simps recordPayment_cases sel1 option.case cur1 out1
    by (simp add: js_sub_def r950 r50)
  have sel2: "select_case {} d2 ''c1'' = Some ?c2"
    unfolding run2 using sel1
    by (intro select_after_update[OF payment_update_case_id]) simp
  have sel2': "select_case {UpdateCase} d2 ''c1'' = Some ?c2"
    using sel2 by (simp add: select_case_def)
  have cur2: "or_zero (total_collected_amount ?c2) = Fin 950"
    by (simp add: or_zero_def r950)
  have run3: "d3 = d2\<lparr>case_call_logs := case_call_logs d2
           @ [payment_log ''c1'' ''u1'' (Fin 25) ''third'']\<rparr>"
    unfolding d3_def run_payment.simps recordPayment_cases sel2' option.case
    by simp
  have v0: "read_total sample_db ''c1'' = Fin 800"
    by (simp only: read_total_def select_sample option.case cur0)
  have v1: "read_total d1 ''c1'' = Fin 900"
    by (simp only: read_total_def sel1 option.case cur1)
  have v2: "read_total d2 ''c1'' = Fin 950"
    by (simp only: read_total_def sel2 option.case cur2)
  have v3: "read_total d3 ''c1'' = Fin 950"
    by (simp only: run3 read_total_logs v2)
  have amounts: "\<forall>p \<in> set sample_calls. \<exists>a. call_amount p = Fin a \<and> 0 < a"
    by (simp add: sample_calls_def)
  have len: "length sample_calls = 3"
    by (simp add: sample_calls_def)
  have in0: "in_range sample_db ?p0"
    by (simp add: select_sample cur0 max_double_def)
  have in1: "in_range d1 ?p1"
    unfolding in_range.simps sel1 option.case cur1 by (simp add: max_double_def)
  have in2: "in_range d2 ?p2"
    unfolding in_range.simps sel2' option.case cur2 by (simp add: max_double_def)
  have range: "\<forall>i < length sample_calls.
      in_range (recordPayments sample_db (take i sample_calls)) (sample_calls ! i)"
  proof (intro allI impI)
    fix i
    assume "i < length sample_calls"
    then consider "i = 0" | "i = 1" | "i = 2"
      unfolding len by linarith
    then show "in_range (recordPayments sample_db (take i sample_calls)) (sample_calls ! i)"
    proof cases
      case 1
      then show ?thesis
        using in0 by (simp only: takes nths)
    next
      case 2
      then show ?thesis
        using in1 by (simp only: takes nths)
    next
      case 3
      then show ?thesis
        using in2 by (simp only: takes nths)
    qed
  qed
  have i1: "1 < length sample_calls" and i2: "2 < length sample_calls"
    by (simp_all add: len)
  show ?thesis
    using total_collected_non_decreasing[OF amounts range i1, of "''c1''"]
      total_collected_non_decreasing[OF amounts range i2, of "''c1''"]
    by (simp only: takes v0 v1 v2 v3)
qed

section \<open>Failure of a payment\<close>

text \<open>
  C5, as stated, fails: when the store refuses the case update after the log insert,
  \<open>recordPayment\<close> fails and the \<open>PAYMENT_RECEIVED\<close> entry stays in the call log
  although the running total was not updated.
\<close>

theorem recordPayment_partial_state_counterexample:
  "recordPayment {UpdateCase} ''2025-11-24'' sample_db ''c1'' ''u1'' (Fin 100) ''paid''
     = (Inl UpdateCaseFailed,
        sample_db\<lparr>case_call_logs := [payment_log ''c1'' ''u1'' (Fin 100) ''paid'']\<rparr>)
   \<and> case_call_logs sample_db = []
   \<and> call_status (payment_log ''c1'' ''u1'' (Fin 100) ''paid'') = ''PAYMENT_RECEIVED''"
  by (simp add: recordPayment_cases select_case_def sample_db_def sample_case_def payment_log_def)

text \<open>
  C5, amended. \<open>recordPayment\<close> has no rollback. Whenever it fails, the case rows and
  the employees are unchanged; a failure of the fetch or of the log insert leaves the
  whole store unchanged; a failure of the case update leaves the call log extended by
  the \<open>PAYMENT_RECEIVED\<close> entry of the payment. The last failure occurs whenever the
  case is fetched, the log insert is accepted and the update is refused.
\<close>

theorem recordPayment_failure_state:
  "(recordPayment faults now d caseId employeeId amount notes = (Inl e, d') \<longrightarrow>
      customer_cases d' = customer_cases d \<and> employees d' = employees d
      \<and> (e \<noteq> UpdateCaseFailed \<longrightarrow> d' = d)
      \<and> (e = UpdateCaseFailed \<longrightarrow>
            d' = d\<lparr>case_call_logs := case_call_logs d @ [payment_log caseId employeeId amount notes]\<rparr>))
   \<and> (select_case faults d caseId = Some c \<and> InsertCallLog \<notin> faults \<and> UpdateCase \<in> faults \<longrightarrow>
        recordPayment faults now d caseId employeeId amount notes
          = (Inl UpdateCaseFailed,
             d\<lparr>case_call_logs := case_call_logs d @ [payment_log caseId employeeId amount notes]\<rparr>))"
  by (auto simp: recordPayment_cases split: option.splits if_splits)

theorem recordPayment_failure_state_witness:
  "recordPayment {UpdateCase} ''2025-11-24'' sample_db ''c1'' ''u1'' (Fin 100) ''paid''
     = (Inl UpdateCaseFailed,
        sample_db\<lparr>case_call_logs := case_call_logs sample_db @ [payment_log ''c1'' ''u1'' (Fin 100) ''paid'']\<rparr>)
   \<and> select_case {UpdateCase} sample_db ''c1'' = Some sample_case"
proof -
  have sel: "select_case {UpdateCase} sample_db ''c1'' = Some sample_case"
    by (simp add: select_case_def sample_db_def sample_case_def)
  show ?thesis
    using recordPayment_failure_state[of "{UpdateCase}" "''2025-11-24''" sample_db "''c1''" "''u1''"
        "Fin 100" "''paid''" UpdateCaseFailed
        "sample_db\<lparr>case_call_logs := case_call_logs sample_db @ [payment_log ''c1'' ''u1'' (Fin 100) ''paid'']\<rparr>"
        sample_case] sel
    by simp
qed

section \<open>Unknown outstanding amount\<close>

text \<open>An outstanding amount of zero is reached by every non-negative total.\<close>

lemma zero_outstanding_reached:
  assumes "0 \<le> x"
  shows "js_le (js_sub (Fin 0) (round64 x)) (Fin 0)"
proof (cases "round64 x")
  case NaN
  then show ?thesis
    by simp
next
  case (Fin v)
  with round64_nonneg[OF assms] have "0 \<le> v"
    by simp
  then have "js_le (round64 (- v)) (Fin 0)"
    by (intro round64_nonpos) simp
  then show ?thesis
    by (simp add: Fin js_sub_def)
next
  case PInf
  then show ?thesis
    by (simp add: js_sub_def)
next
  case NInf
  with round64_nonneg[OF assms] show ?thesis
    by simp
qed

lemma select_unknown: "select_case {} unknown_db ''c1'' = Some unknown_case"
  by (simp add: select_case_def unknown_db_def unknown_case_def sample_case_def)

lemma select_garbled: "select_case {} garbled_db ''c1'' = Some garbled_case"
  by (simp add: select_case_def garbled_db_def garbled_case_def sample_case_def)

text \<open>
  C6, as stated, fails: a case whose outstanding amount is missing is closed by its
  first payment.
\<close>

theorem recordPayment_unknown_outstanding_counterexample:
  "outstanding_amount unknown_case = None
   \<and> case_status unknown_case = Some ''pending''
   \<and> fst (recordPayment {} ''2025-11-24'' unknown_db ''c1'' ''u1'' (Fin 100) ''paid'')
       = Inr (unknown_case\<lparr>total_collected_amount := Some 100, updated_at := Some ''2025-11-24'',
                            case_status := Some ''closed'', status := Some Closed\<rparr>)"
proof -
  have cur: "or_zero (total_collected_amount unknown_case) = Fin 0"
    by (simp add: or_zero_def unknown_case_def)
  have out: "parseFloat (or_str (outstanding_amount unknown_case) ''0'') = Fin 0"
    by (simp add: unknown_case_def or_str_def parseFloat_0)
  have upd: "payment_outcome unknown_case (Fin 100) ''2025-11-24''
      = unknown_case\<lparr>total_collected_amount := Some 100, updated_at := Some ''2025-11-24'',
                      case_status := Some ''closed'', status := Some Closed\<rparr>"
    unfolding payment_outcome_def cur out
    by (simp add: payment_update_def js_sub_def round64_100 round64_neg)
  show ?thesis
    by (simp add: recordPayment_cases select_unknown upd)
      (simp add: unknown_case_def sample_case_def)
qed

text \<open>
  C6, amended. On a case that the store returns, with the log insert and the update
  accepted, and a payment \<open>a > 0\<close> on a current total \<open>C >= 0\<close>: when the outstanding
  amount is missing or empty it is taken as 0 and the payment closes the case (working
  status and case status); when its text does not start with a number, so that
  \<open>parseFloat\<close> gives \<open>NaN\<close>, the payment leaves both statuses as they were.
\<close>

theorem recordPayment_unknown_outstanding:
  assumes sel: "select_case faults d caseId = Some c"
    and ok: "InsertCallLog \<notin> faults" "UpdateCase \<notin> faults"
    and cur: "or_zero (total_collected_amount c) = Fin C" "0 \<le> C"
    and pos: "0 < a"
  shows "\<exists>u d'. recordPayment faults now d caseId employeeId (Fin a) notes = (Inr u, d')
           \<and> (outstanding_amount c = None \<or> outstanding_amount c = Some [] \<longrightarrow>
                 status u = Some Closed \<and> case_status u = Some ''closed'')
           \<and> (parseFloat (or_str (outstanding_amount c) ''0'') = NaN \<longrightarrow>
                 status u = status c \<and> case_status u = case_status c)"
proof -
  let ?u = "payment_outcome c (Fin a) now"
  let ?run = "recordPayment faults now d caseId employeeId (Fin a) notes"
  have run: "fst ?run = Inr ?u"
    using sel ok by (simp add: recordPayment_cases)
  have reached: "js_le (js_sub (Fin 0) (round64 (C + a))) (Fin 0)"
    using cur(2) pos by (intro zero_outstanding_reached) simp
  have missing: "outstanding_amount c = None \<or> outstanding_amount c = Some [] \<Longrightarrow>
      status ?u = Some Closed \<and> case_status ?u = Some ''closed''"
    using reached
    by (auto simp: payment_outcome_def payment_update_def or_str_def parseFloat_0 cur(1) Let_def)
  have garbled: "parseFloat (or_str (outstanding_amount c) ''0'') = NaN \<Longrightarrow>
      status ?u = status c \<and> case_status ?u = case_status c"
    by (simp add: payment_outcome_def payment_update_def js_sub_def Let_def)
  show ?thesis
    using run missing garbled by (metis prod.collapse)
qed

theorem recordPayment_unknown_outstanding_witness:
  "(\<exists>u d'. recordPayment {} ''2025-11-24'' unknown_db ''c1'' ''u1'' (Fin 100) ''paid'' = (Inr u, d')
       \<and> status u = Some Closed \<and> case_status u = Some ''closed'')
   \<and> (\<exists>u d'. recordPayment {} ''2025-11-24'' garbled_db ''c1'' ''u1'' (Fin 100) ''paid'' = (Inr u, d')
       \<and> status u = Some Assigned \<and> case_status u = Some ''pending'')"
proof -
  have cur1: "or_zero (total_collected_amount unknown_case) = Fin 0"
    by (simp add: or_zero_def unknown_case_def)
  have cur2: "or_zero (total_collected_amount garbled_case) = Fin 0"
    by (simp add: or_zero_def garbled_case_def)
  have pos: "(0::rat) < 100" and nonneg: "(0::rat) \<le> 0"
    by simp_all
  have out1: "outstanding_amount unknown_case = None"
    by (simp add: unknown_case_def)
  have out2: "parseFloat (or_str (outstanding_amount garbled_case) ''0'') = NaN"
    by (simp add: garbled_case_def or_str_def parseFloat_garbled)
  have st2: "status garbled_case = Some Assigned" "case_status garbled_case = Some ''pending''"
    by (simp_all add: garbled_case_def sample_case_def)
  show ?thesis
    using recordPayment_unknown_outstanding[OF select_unknown _ _ cur1 nonneg pos,
        of "''2025-11-24''" "''u1''" "''paid''"]
      recordPayment_unknown_outstanding[OF select_garbled _ _ cur2 nonneg pos,
        of "''2025-11-24''" "''u1''" "''paid''"]
      out1 out2 st2
    by auto
qed

section \<open>Assignment of a closed case\<close>

lemma assign_update_case_id [simp]: "case_id (assign_update tid e st now c) = case_id c"
  by (simp add: assign_update_def)

lemma select_employee_sample: "select_employee {} closed_db ''u1'' = Some sample_telecaller"
  by (simp add: select_employee_def closed_db_def sample_telecaller_def)

lemma select_closed: "select_case {} closed_db ''c1'' = Some closed_case"
  by (simp add: select_case_def closed_db_def closed_case_def sample_case_def)

text \<open>
  C3, as stated, fails: on a closed case an assignment and an unassignment both
  succeed and change the stored row.
\<close>

theorem assignCase_closed_counterexample:
  "case_status closed_case = Some ''closed''
   \<and> assignCase {} ''2025-11-24'' closed_db ''c1''
        \<lparr>assignment_caseId = ''c1'', telecallerId = None, assignedBy = ''incharge''\<rparr>
       = (Inr (),
          closed_db\<lparr>customer_cases :=
            [closed_case\<lparr>telecaller_id := None, updated_at := Some ''2025-11-24'',
                          assigned_employee_id := None, status := Some New\<rparr>]\<rparr>)
   \<and> fst (assignCase {} ''2025-11-24'' closed_db ''c1''
        \<lparr>assignment_caseId = ''c1'', telecallerId = Some ''u1'', assignedBy = ''incharge''\<rparr>)
       = Inr ()"
  by (simp add: assignCase_def submit_assignment_def update_case_plain_def apply_update_def
        assign_update_def select_employee_def closed_db_def closed_case_def sample_case_def
        sample_telecaller_def)

text \<open>
  C3, amended. \<open>assignCase\<close> never reads \<open>case_status\<close>. For a case whose case status
  is \<open>closed\<close>, when the store accepts the calls, an unassignment succeeds, clears
  \<open>telecaller_id\<close> and \<open>assigned_employee_id\<close> and sets the working status \<open>new\<close>; an
  assignment to a telecaller that the store returns succeeds, sets \<open>telecaller_id\<close>,
  the telecaller's employee-id-string and the working status \<open>assigned\<close>. Both leave
  \<open>case_status\<close> at \<open>closed\<close>.
\<close>

theorem assignCase_on_closed_case:
  assumes sel: "select_case {} d caseId = Some c"
    and closed: "case_status c = Some ''closed''"
    and ok: "UpdateCase \<notin> faults"
    and tel: "select_employee faults d tid = Some telecaller" "tid \<noteq> []"
  shows "\<exists>d1 d2 u1 u2.
           assignCase faults now d caseId
             \<lparr>assignment_caseId = caseId, telecallerId = None, assignedBy = incharge\<rparr> = (Inr (), d1)
         \<and> select_case {} d1 caseId = Some u1
         \<and> telecaller_id u1 = None \<and> assigned_employee_id u1 = None \<and> status u1 = Some New
         \<and> case_status u1 = Some ''closed''
         \<and> assignCase faults now d caseId
             \<lparr>assignment_caseId = caseId, telecallerId = Some tid, assignedBy = incharge\<rparr> = (Inr (), d2)
         \<and> select_case {} d2 caseId = Some u2
         \<and> telecaller_id u2 = Some tid \<and> assigned_employee_id u2 = or_null (emp_id telecaller)
         \<and> status u2 = Some Assigned \<and> case_status u2 = Some ''closed''"
proof -
  let ?un = "assign_update None None New now"
  let ?as = "assign_update (Some tid) (or_null (emp_id telecaller)) Assigned now"
  have run1: "assignCase faults now d caseId
      \<lparr>assignment_caseId = caseId, telecallerId = None, assignedBy = incharge\<rparr>
      = (Inr (), apply_update caseId ?un d)"
    using ok by (simp add: assignCase_def submit_assignment_def update_case_plain_def)
  have run2: "assignCase faults now d caseId
      \<lparr>assignment_caseId = caseId, telecallerId = Some tid, assignedBy = incharge\<rparr>
      = (Inr (), apply_update caseId ?as d)"
    using ok tel by (simp add: assignCase_def submit_assignment_def update_case_plain_def)
  have s1: "select_case {} (apply_update caseId ?un d) caseId = Some (?un c)"
    by (rule select_after_update[OF assign_update_case_id sel])
  have s2: "select_case {} (apply_update caseId ?as d) caseId = Some (?as c)"
    by (rule select_after_update[OF assign_update_case_id sel])
  have f1: "telecaller_id (?un c) = None \<and> assigned_employee_id (?un c) = None
      \<and> status (?un c) = Some New \<and> case_status (?un c) = Some ''closed''"
    using closed by (simp add: assign_update_def)
  have f2: "telecaller_id (?as c) = Some tid \<and> assigned_employee_id (?as c) = or_null (emp_id telecaller)
      \<and> status (?as c) = Some Assigned \<and> case_status (?as c) = Some ''closed''"
    using closed by (simp add: assign_update_def)
  show ?thesis
    using run1 run2 s1 s2 f1 f2 by blast
qed

theorem assignCase_on_closed_case_witness:
  "\<exists>d1 d2 u1 u2.
       assignCase {} ''2025-11-24'' closed_db ''c1''
         \<lparr>assignment_caseId = ''c1'', telecallerId = None, assignedBy = ''incharge''\<rparr> = (Inr (), d1)
     \<and> select_case {} d1 ''c1'' = Some u1
     \<and> telecaller_id u1 = None \<and> assigned_employee_id u1 = None \<and> status u1 = Some New
     \<and> case_status u1 = Some ''closed''
     \<and> assignCase {} ''2025-11-24'' closed_db ''c1''
         \<lparr>assignment_caseId = ''c1'', telecallerId = Some ''u1'', assignedBy = ''incharge''\<rparr> = (Inr (), d2)
     \<and> select_case {} d2 ''c1'' = Some u2
     \<and> telecaller_id u2 = Some ''u1'' \<and> assigned_employee_id u2 = Some ''E1''
     \<and> status u2 = Some Assigned \<and> case_status u2 = Some ''closed''"
proof -
  have closed: "case_status closed_case = Some ''closed''"
    by (simp add: closed_case_def)
  have ok: "UpdateCase \<notin> {}" and ne: "''u1'' \<noteq> []"
    by simp_all
  have e: "or_null (emp_id sample_telecaller) = Some ''E1''"
    by (simp add: or_null_def sample_telecaller_def)
  show ?thesis
    using assignCase_on_closed_case[OF select_closed closed ok select_employee_sample ne,
        of "''2025-11-24''" "''incharge''"]
    by (simp add: e)
qed

section \<open>Logging a call\<close>

lemma in_progress_update_case_id [simp]: "case_id (in_progress_update now c) = case_id c"
  by (simp add: in_progress_update_def)

text \<open>
  C7, as stated, fails: logging a call on a case whose working status is \<open>closed\<close>
  moves the status back to \<open>in_progress\<close>.
\<close>

theorem handleStatusUpdateSubmit_regress_counterexample:
  "status closed_case = Some Closed
   \<and> handleStatusUpdateSubmit {} ''2025-11-24'' closed_db (Some closed_case) ''u1'' ''RNR'' [] []
        ''no answer''
       = (StatusSaved,
          \<lparr>employees = [sample_telecaller],
           customer_cases =
             [closed_case\<lparr>status := Some InProgress, updated_at := Some ''2025-11-24''\<rparr>],
           case_call_logs = [status_log ''c1'' ''u1'' ''RNR'' [] [] ''no answer'']\<rparr>)
   \<and> status_rank InProgress < status_rank Closed"
  by (simp add: handleStatusUpdateSubmit_def addCallLog_def updateCase_def insert_call_log_def
        update_case_single_def apply_update_def in_progress_update_def trim_def is_space_def
        closed_db_def closed_case_def sample_case_def)

text \<open>
  C7, amended. A logged call that is saved appends exactly one entry to the call log,
  leaving the earlier entries as they were, and sets the working status of the case to
  \<open>in_progress\<close> whatever it was before: a status \<open>new\<close>, \<open>assigned\<close> or
  \<open>in_progress\<close> is not moved backward, and any other column but \<open>updated_at\<close> keeps
  its value.
\<close>

theorem handleStatusUpdateSubmit_sets_in_progress:
  assumes run: "handleStatusUpdateSubmit faults now d (Some shown) userId callStatus ptpDate ptpTime
                  remarks = (StatusSaved, d')"
    and cid: "case_id shown = Some caseId"
  shows "\<exists>c. select_case {} d caseId = Some c
           \<and> case_call_logs d' = case_call_logs d
                @ [status_log caseId userId callStatus ptpDate ptpTime remarks]
           \<and> select_case {} d' caseId = Some (c\<lparr>status := Some InProgress, updated_at := Some now\<rparr>)
           \<and> (status c = Some Assigned \<longrightarrow>
                status (c\<lparr>status := Some InProgress, updated_at := Some now\<rparr>) = Some InProgress)
           \<and> (\<forall>s. status c = Some s \<and> s \<noteq> Closed \<longrightarrow> status_rank s \<le> status_rank InProgress)"
proof -
  let ?entry = "status_log caseId userId callStatus ptpDate ptpTime remarks"
  let ?d1 = "d\<lparr>case_call_logs := case_call_logs d @ [?entry]\<rparr>"
  from run cid have ins: "InsertCallLog \<notin> faults" and upd: "UpdateCase \<notin> faults"
    by (auto simp: handleStatusUpdateSubmit_def addCallLog_def updateCase_def insert_call_log_def
          update_case_single_def split: if_splits option.splits prod.splits sum.splits)
  from run cid ins upd obtain c
    where c: "single (filter (\<lambda>r. case_id r = Some caseId) (customer_cases d)) = Some c"
      and d': "d' = apply_update caseId (in_progress_update now) ?d1"
    by (auto simp: handleStatusUpdateSubmit_def addCallLog_def updateCase_def insert_call_log_def
          update_case_single_def split: if_splits option.splits prod.splits sum.splits)
  have sel: "select_case {} ?d1 caseId = Some c"
    using c by (simp add: select_case_def)
  have after: "select_case {} d' caseId = Some (in_progress_update now c)"
    unfolding d' by (rule select_after_update[OF in_progress_update_case_id sel])
  have logs: "case_call_logs d' = case_call_logs d @ [?entry]"
    by (simp add: d' apply_update_def)
  have rank: "\<forall>s. status c = Some s \<and> s \<noteq> Closed \<longrightarrow> status_rank s \<le> status_rank InProgress"
  proof (intro allI impI)
    fix s
    assume "status c = Some s \<and> s \<noteq> Closed"
    then show "status_rank s \<le> status_rank InProgress"
      by (cases s) simp_all
  qed
  show ?thesis
    using sel after logs rank by (auto simp: in_progress_update_def)
qed

theorem handleStatusUpdateSubmit_sets_in_progress_witness:
  "handleStatusUpdateSubmit {} ''2025-11-24'' sample_db (Some sample_case) ''u1'' ''RNR'' [] []
      ''no answer''
     = (StatusSaved,
        \<lparr>employees = [sample_telecaller],
         customer_cases = [sample_case\<lparr>status := Some InProgress, updated_at := Some ''2025-11-24''\<rparr>],
         case_call_logs = [status_log ''c1'' ''u1'' ''RNR'' [] [] ''no answer'']\<rparr>)
   \<and> status sample_case = Some Assigned
   \<and> (\<exists>c. select_case {} sample_db ''c1'' = Some c
         \<and> select_case {}
              \<lparr>employees = [sample_telecaller],
               customer_cases = [sample_case\<lparr>status := Some InProgress, updated_at := Some ''2025-11-24''\<rparr>],
               case_call_logs = [status_log ''c1'' ''u1'' ''RNR'' [] [] ''no answer'']\<rparr> ''c1''
             = Some (c\<lparr>status := Some InProgress, updated_at := Some ''2025-11-24''\<rparr>))"
proof -
  have run: "handleStatusUpdateSubmit {} ''2025-11-24'' sample_db (Some sample_case) ''u1'' ''RNR'' [] []
      ''no answer''
     = (StatusSaved,
        \<lparr>employees = [sample_telecaller],
         customer_cases = [sample_case\<lparr>status := Some InProgress, updated_at := Some ''2025-11-24''\<rparr>],
         case_call_logs = [status_log ''c1'' ''u1'' ''RNR'' [] [] ''no answer'']\<rparr>)"
    by (simp add: handleStatusUpdateSubmit_def addCallLog_def updateCase_def insert_call_log_def
        update_case_single_def apply_update_def in_progress_update_def trim_def is_space_def
        sample_db_def sample_case_def)
  have cid: "case_id sample_case = Some ''c1''" and st: "status sample_case = Some Assigned"
    by (simp_all add: sample_case_def)
  show ?thesis
    using handleStatusUpdateSubmit_sets_in_progress[OF run cid] run st
    by auto
qed

section \<open>Bulk reconciliation\<close>

lemma bulk_loop_counts:
  "autoAssigned (fst (bulk_loop tmap upsert i cases (res, d))) + unassigned (fst (bulk_loop tmap upsert i cases (res, d)))
     = autoAssigned res + unassigned res + length cases
   \<and> totalUploaded (fst (bulk_loop tmap upsert i cases (res, d)))
       + length (errors (fst (bulk_loop tmap upsert i cases (res, d))))
     = totalUploaded res + length (errors res) + length cases"
proof (induction cases arbitrary: i res d)
  case Nil
  then show ?case by simp
next
  case (Cons x xs)
  show ?case
    by (simp add: Cons.IH count_outcome_def count_assignment_def split: upsert_outcome.splits)
qed

text \<open>
  What the counters of every upload satisfy: each row is counted once as auto-assigned
  or unassigned, before its upsert, and once as uploaded or as an error, after it.
\<close>

lemma createBulkCases_counts:
  "autoAssigned (fst (createBulkCases faults upsert d cases))
     + unassigned (fst (createBulkCases faults upsert d cases)) = length cases
   \<and> totalUploaded (fst (createBulkCases faults upsert d cases))
     + length (errors (fst (createBulkCases faults upsert d cases))) = length cases"
  using bulk_loop_counts[of _ upsert 0 cases
      "\<lparr>totalUploaded = 0, autoAssigned = 0, unassigned = 0, errors = []\<rparr>" d]
  by (simp add: createBulkCases_def)

text \<open>
  C2. The code counts a row as auto-assigned or unassigned before its upsert and does
  not take the count back when the upsert fails: for one row that the store rejects,
  the summary has one unassigned row, no uploaded row and one error, so
  \<open>autoAssigned + unassigned\<close> is 1 and \<open>totalUploaded\<close> is 0.
\<close>

theorem createBulkCases_rejected_row:
  "totalUploaded (fst (createBulkCases {} rejecting_upsert empty_db [upload_row ''LN1'' ''E9''])) = 0
   \<and> autoAssigned (fst (createBulkCases {} rejecting_upsert empty_db [upload_row ''LN1'' ''E9''])) = 0
   \<and> unassigned (fst (createBulkCases {} rejecting_upsert empty_db [upload_row ''LN1'' ''E9''])) = 1
   \<and> length (errors (fst (createBulkCases {} rejecting_upsert empty_db [upload_row ''LN1'' ''E9'']))) = 1"
  by (simp add: createBulkCases_def rejecting_upsert_def count_outcome_def count_assignment_def
        auto_assign_def case_EMPID_def upload_row_def telecallerMap_def select_telecallers_def
        empty_db_def sample_telecaller_def)

subsection \<open>Auto-assignment of a row\<close>

lemma telecallerMap_fold_dom:
  "(foldl (\<lambda>m tel. m(emp_id tel \<mapsto> employee_uuid tel)) m0 ts) k = None
     \<longleftrightarrow> m0 k = None \<and> (\<forall>tel \<in> set ts. emp_id tel \<noteq> k)"
  by (induction ts arbitrary: m0) auto

lemma telecallerMap_fold_Some:
  "(foldl (\<lambda>m tel. m(emp_id tel \<mapsto> employee_uuid tel)) m0 ts) k = Some u \<Longrightarrow>
     m0 k = Some u \<or> (\<exists>tel \<in> set ts. emp_id tel = k \<and> employee_uuid tel = u)"
proof (induction ts arbitrary: m0)
  case Nil
  then show ?case by simp
next
  case (Cons t ts)
  have "(foldl (\<lambda>m tel. m(emp_id tel \<mapsto> employee_uuid tel)) (m0(emp_id t \<mapsto> employee_uuid t)) ts) k
          = Some u"
    using Cons.prems by (simp only: foldl_Cons)
  from Cons.IH[OF this] show ?case
    by (auto split: if_splits)
qed

lemma telecallerMap_None:
  "telecallerMap (Some roster) k = None \<longleftrightarrow> (\<forall>tel \<in> set roster. emp_id tel \<noteq> k)"
  by (simp add: telecallerMap_def telecallerMap_fold_dom)

lemma telecallerMap_Some:
  "telecallerMap (Some roster) k = Some u \<Longrightarrow>
     \<exists>tel \<in> set roster. emp_id tel = k \<and> employee_uuid tel = u"
  using telecallerMap_fold_Some[of Map.empty roster k u] by (simp add: telecallerMap_def)

lemma auto_assign_counted:
  "snd (auto_assign (telecallerMap (Some roster)) row)
     \<longleftrightarrow> truthy (case_EMPID row) \<and> (\<exists>tel \<in> set roster. emp_id tel = js_String (case_EMPID row))"
  by (auto simp: auto_assign_def telecallerMap_None)

lemma auto_assign_matched:
  assumes "truthy (case_EMPID row)"
    and "\<exists>tel \<in> set roster. emp_id tel = js_String (case_EMPID row)"
  shows "\<exists>tel \<in> set roster. emp_id tel = js_String (case_EMPID row)
           \<and> fst (auto_assign (telecallerMap (Some roster)) row)
               = row\<lparr>telecaller_id := Some (employee_uuid tel),
                      assigned_employee_id := Some (js_String (case_EMPID row)),
                      status := Some Assigned\<rparr>"
proof -
  from assms(2) have "telecallerMap (Some roster) (js_String (case_EMPID row)) \<noteq> None"
    by (simp add: telecallerMap_None)
  then obtain u where u: "telecallerMap (Some roster) (js_String (case_EMPID row)) = Some u"
    by blast
  from telecallerMap_Some[OF u] obtain tel where tel: "tel \<in> set roster"
      "emp_id tel = js_String (case_EMPID row)" "employee_uuid tel = u"
    by blast
  have "fst (auto_assign (telecallerMap (Some roster)) row)
      = row\<lparr>telecaller_id := Some (employee_uuid tel),
             assigned_employee_id := Some (js_String (case_EMPID row)),
             status := Some Assigned\<rparr>"
    using assms(1) u tel(3) by (simp add: auto_assign_def)
  with tel show ?thesis
    by blast
qed

lemma auto_assign_unmatched:
  assumes "\<not> (truthy (case_EMPID row)
              \<and> (\<exists>tel \<in> set roster. emp_id tel = js_String (case_EMPID row)))"
  shows "fst (auto_assign (telecallerMap (Some roster)) row)
           = row\<lparr>telecaller_id := None, assigned_employee_id := None, status := Some New\<rparr>"
proof -
  from assms have "\<not> truthy (case_EMPID row)
      \<or> telecallerMap (Some roster) (js_String (case_EMPID row)) = None"
    by (auto simp: telecallerMap_None)
  then show ?thesis
    by (auto simp: auto_assign_def)
qed

lemma bulk_loop_assignment_counters:
  "autoAssigned (fst (bulk_loop tmap upsert i cases (res, d)))
     = autoAssigned res + length (filter (\<lambda>r. snd (auto_assign tmap r)) cases)
   \<and> unassigned (fst (bulk_loop tmap upsert i cases (res, d)))
     = unassigned res + length (filter (\<lambda>r. \<not> snd (auto_assign tmap r)) cases)"
proof (induction cases arbitrary: i res d)
  case Nil
  then show ?case by simp
next
  case (Cons x xs)
  show ?case
    by (simp add: Cons.IH count_outcome_def count_assignment_def split: upsert_outcome.splits)
qed

lemma appending_upsert_simps:
  "fst (appending_upsert d c) = UpsertOk"
  "snd (appending_upsert d c) = d\<lparr>customer_cases := customer_cases d @ [c]\<rparr>"
  by (simp_all add: appending_upsert_def)

lemma bulk_loop_appending:
  "snd (bulk_loop tmap appending_upsert i cases (res, d))
     = d\<lparr>customer_cases := customer_cases d @ map (\<lambda>r. fst (auto_assign tmap r)) cases\<rparr>"
proof (induction cases arbitrary: i res d)
  case Nil
  then show ?case by simp
next
  case (Cons x xs)
  show ?case
    by (simp add: Cons.IH appending_upsert_simps)
qed

text \<open>
  The lookup table of an upload whose rows belong to one tenant, when the query of the
  telecallers succeeds: the active telecallers of that tenant.
\<close>

lemma createBulkCases_roster:
  assumes "SelectTelecallers \<notin> faults" and "\<forall>r \<in> set cases. tenant_id r = tenant"
    and "cases \<noteq> []"
  shows "select_telecallers faults d (case cases of [] \<Rightarrow> None | c # _ \<Rightarrow> Some (tenant_id c))
           = Some (filter (\<lambda>e. employee_tenant_id e = tenant \<and> role e = ''Telecaller''
                                \<and> employee_status e = ''active'') (employees d))"
  using assms by (cases cases) (simp_all add: select_telecallers_def)

lemma case_EMPID_upload_row [simp]: "case_EMPID (upload_row loan empid) = JStr empid"
  by (simp add: case_EMPID_def upload_row_def)

lemma tenant_id_upload_row [simp]: "tenant_id (upload_row loan empid) = ''t1''"
  by (simp add: upload_row_def)

lemma case_EMPID_other_tenant_row [simp]: "case_EMPID (other_tenant_row loan empid) = JStr empid"
  by (simp add: case_EMPID_def other_tenant_row_def upload_row_def)

lemma tenant_id_other_tenant_row [simp]: "tenant_id (other_tenant_row loan empid) = ''t2''"
  by (simp add: other_tenant_row_def)

text \<open>
  C9, as stated, fails in three ways. A row whose EMPID is the empty text is left
  unassigned although an active telecaller of the tenant has that (empty)
  employee-id-string. When the query of the telecallers fails, a row whose EMPID is the
  employee-id-string of an active telecaller is left unassigned. In an upload with rows
  of two tenants, a row of the second tenant whose EMPID is the employee-id-string of an
  active telecaller of its tenant is left unassigned.
\<close>

theorem createBulkCases_unassigned_counterexample:
  "blank_telecaller \<in> set (employees blank_roster_db)
   \<and> role blank_telecaller = ''Telecaller'' \<and> employee_status blank_telecaller = ''active''
   \<and> employee_tenant_id blank_telecaller = tenant_id (upload_row ''LN1'' [])
   \<and> js_String (case_EMPID (upload_row ''LN1'' [])) = emp_id blank_telecaller
   \<and> createBulkCases {} appending_upsert blank_roster_db [upload_row ''LN1'' []]
       = (\<lparr>totalUploaded = 1, autoAssigned = 0, unassigned = 1, errors = []\<rparr>,
          blank_roster_db\<lparr>customer_cases :=
            [(upload_row ''LN1'' [])\<lparr>telecaller_id := None, assigned_employee_id := None,
                                     status := Some New\<rparr>]\<rparr>)
   \<and> sample_telecaller \<in> set (employees empty_db)
   \<and> role sample_telecaller = ''Telecaller'' \<and> employee_status sample_telecaller = ''active''
   \<and> employee_tenant_id sample_telecaller = tenant_id (upload_row ''LN2'' ''E1'')
   \<and> js_String (case_EMPID (upload_row ''LN2'' ''E1'')) = emp_id sample_telecaller
   \<and> createBulkCases {SelectTelecallers} appending_upsert empty_db [upload_row ''LN2'' ''E1'']
       = (\<lparr>totalUploaded = 1, autoAssigned = 0, unassigned = 1, errors = []\<rparr>,
          empty_db\<lparr>customer_cases :=
            [(upload_row ''LN2'' ''E1'')\<lparr>telecaller_id := None, assigned_employee_id := None,
                                        status := Some New\<rparr>]\<rparr>)
   \<and> other_telecaller \<in> set (employees two_tenant_db)
   \<and> role other_telecaller = ''Telecaller'' \<and> employee_status other_telecaller = ''active''
   \<and> employee_tenant_id other_telecaller = tenant_id (other_tenant_row ''LN3'' ''E7'')
   \<and> js_String (case_EMPID (other_tenant_row ''LN3'' ''E7'')) = emp_id other_telecaller
   \<and> createBulkCases {} appending_upsert two_tenant_db
         [upload_row ''LN1'' ''E1'', other_tenant_row ''LN3'' ''E7'']
       = (\<lparr>totalUploaded = 2, autoAssigned = 1, unassigned = 1, errors = []\<rparr>,
          two_tenant_db\<lparr>customer_cases :=
            [(upload_row ''LN1'' ''E1'')\<lparr>telecaller_id := Some ''u1'',
                assigned_employee_id := Some ''E1'', status := Some Assigned\<rparr>,
             (other_tenant_row ''LN3'' ''E7'')\<lparr>telecaller_id := None,
                assigned_employee_id := None, status := Some New\<rparr>]\<rparr>)"
proof -
  have blank: "createBulkCases {} appending_upsert blank_roster_db [upload_row ''LN1'' []]
       = (\<lparr>totalUploaded = 1, autoAssigned = 0, unassigned = 1, errors = []\<rparr>,
          blank_roster_db\<lparr>customer_cases :=
            [(upload_row ''LN1'' [])\<lparr>telecaller_id := None, assigned_employee_id := None,
                                     status := Some New\<rparr>]\<rparr>)"
    by (simp add: createBulkCases_def appending_upsert_def count_outcome_def count_assignment_def
        auto_assign_def telecallerMap_def select_telecallers_def
        blank_roster_db_def blank_telecaller_def)
  have failed: "createBulkCases {SelectTelecallers} appending_upsert empty_db [upload_row ''LN2'' ''E1'']
       = (\<lparr>totalUploaded = 1, autoAssigned = 0, unassigned = 1, errors = []\<rparr>,
          empty_db\<lparr>customer_cases :=
            [(upload_row ''LN2'' ''E1'')\<lparr>telecaller_id := None, assigned_employee_id := None,
                                        status := Some New\<rparr>]\<rparr>)"
    by (simp add: createBulkCases_def appending_upsert_def count_outcome_def count_assignment_def
        auto_assign_def telecallerMap_def select_telecallers_def empty_db_def)
  have two: "createBulkCases {} appending_upsert two_tenant_db
         [upload_row ''LN1'' ''E1'', other_tenant_row ''LN3'' ''E7'']
       = (\<lparr>totalUploaded = 2, autoAssigned = 1, unassigned = 1, errors = []\<rparr>,
          two_tenant_db\<lparr>customer_cases :=
            [(upload_row ''LN1'' ''E1'')\<lparr>telecaller_id := Some ''u1'',
                assigned_employee_id := Some ''E1'', status := Some Assigned\<rparr>,
             (other_tenant_row ''LN3'' ''E7'')\<lparr>telecaller_id := None,
                assigned_employee_id := None, status := Some New\<rparr>]\<rparr>)"
    by (simp add: createBulkCases_def appending_upsert_def count_outcome_def count_assignment_def
        auto_assign_def telecallerMap_def select_telecallers_def two_tenant_db_def
        sample_telecaller_def other_telecaller_def)
  have facts: "blank_telecaller \<in> set (employees blank_roster_db)"
    "role blank_telecaller = ''Telecaller''" "employee_status blank_telecaller = ''active''"
    "employee_tenant_id blank_telecaller = tenant_id (upload_row ''LN1'' [])"
    "js_String (case_EMPID (upload_row ''LN1'' [])) = emp_id blank_telecaller"
    "sample_telecaller \<in> set (employees empty_db)"
    "role sample_telecaller = ''Telecaller''" "employee_status sample_telecaller = ''active''"
    "employee_tenant_id sample_telecaller = tenant_id (upload_row ''LN2'' ''E1'')"
    "js_String (case_EMPID (upload_row ''LN2'' ''E1'')) = emp_id sample_telecaller"
    "other_telecaller \<in> set (employees two_tenant_db)"
    "role other_telecaller = ''Telecaller''" "employee_status other_telecaller = ''active''"
    "employee_tenant_id other_telecaller = tenant_id (other_tenant_row ''LN3'' ''E7'')"
    "js_String (case_EMPID (other_tenant_row ''LN3'' ''E7'')) = emp_id other_telecaller"
    by (simp_all add: blank_roster_db_def blank_telecaller_def empty_db_def sample_telecaller_def
        two_tenant_db_def other_telecaller_def)
  show ?thesis
    using blank failed two facts by (intro conjI)
qed

text \<open>
  C9, amended. Take an upload whose rows all belong to one tenant and for which the
  query of the telecallers succeeds. For every row: if its EMPID value is present and
  not empty, and its text is the employee-id-string of an active telecaller of that
  tenant, the row is sent to the store with \<open>telecaller_id\<close> the identifier of such a
  telecaller, \<open>assigned_employee_id\<close> the EMPID text and working status \<open>assigned\<close>;
  otherwise it is sent with both fields unset and working status \<open>new\<close>. (The row sent
  is read off the store that appends what it is given.) The auto-assigned counter of
  the summary is the number of rows of the first kind and the unassigned counter the
  number of the others, whatever the store answers.
\<close>

theorem createBulkCases_assignment:
  assumes query: "SelectTelecallers \<notin> faults"
    and tenant: "\<forall>r \<in> set cases. tenant_id r = tenant"
    and i: "i < length cases"
    and row: "row = cases ! i"
    and sent: "sent = customer_cases (snd (createBulkCases faults appending_upsert d cases))
                        ! (length (customer_cases d) + i)"
  shows "(truthy (case_EMPID row)
            \<and> (\<exists>tel \<in> set (employees d). employee_tenant_id tel = tenant
                   \<and> role tel = ''Telecaller'' \<and> employee_status tel = ''active''
                   \<and> emp_id tel = js_String (case_EMPID row)) \<longrightarrow>
          (\<exists>tel \<in> set (employees d). employee_tenant_id tel = tenant
               \<and> role tel = ''Telecaller'' \<and> employee_status tel = ''active''
               \<and> emp_id tel = js_String (case_EMPID row)
               \<and> sent = row\<lparr>telecaller_id := Some (employee_uuid tel),
                             assigned_employee_id := Some (js_String (case_EMPID row)),
                             status := Some Assigned\<rparr>))
       \<and> (\<not> (truthy (case_EMPID row)
               \<and> (\<exists>tel \<in> set (employees d). employee_tenant_id tel = tenant
                      \<and> role tel = ''Telecaller'' \<and> employee_status tel = ''active''
                      \<and> emp_id tel = js_String (case_EMPID row))) \<longrightarrow>
            sent = row\<lparr>telecaller_id := None, assigned_employee_id := None, status := Some New\<rparr>)
       \<and> autoAssigned (fst (createBulkCases faults upsert d cases))
           = length (filter (\<lambda>r. truthy (case_EMPID r)
               \<and> (\<exists>tel \<in> set (employees d). employee_tenant_id tel = tenant
                      \<and> role tel = ''Telecaller'' \<and> employee_status tel = ''active''
                      \<and> emp_id tel = js_String (case_EMPID r))) cases)
       \<and> unassigned (fst (createBulkCases faults upsert d cases))
           = length (filter (\<lambda>r. \<not> (truthy (case_EMPID r)
               \<and> (\<exists>tel \<in> set (employees d). employee_tenant_id tel = tenant
                      \<and> role tel = ''Telecaller'' \<and> employee_status tel = ''active''
                      \<and> emp_id tel = js_String (case_EMPID r)))) cases)"
proof -
  define roster where "roster = filter (\<lambda>e. employee_tenant_id e = tenant \<and> role e = ''Telecaller''
                                \<and> employee_status e = ''active'') (employees d)"
  define tmap where "tmap = telecallerMap (Some roster)"
  have ne: "cases \<noteq> []"
    using i by auto
  have run: "createBulkCases faults u d cases
      = bulk_loop tmap u 0 cases
          (\<lparr>totalUploaded = 0, autoAssigned = 0, unassigned = 0, errors = []\<rparr>, d)" for u
    unfolding createBulkCases_def createBulkCases_roster[OF query tenant ne] tmap_def roster_def
    by (rule refl)
  have member: "(\<exists>tel \<in> set roster. emp_id tel = k)
      \<longleftrightarrow> (\<exists>tel \<in> set (employees d). employee_tenant_id tel = tenant
               \<and> role tel = ''Telecaller'' \<and> employee_status tel = ''active''
               \<and> emp_id tel = k)" for k
    by (auto simp: roster_def)
  have sent': "sent = fst (auto_assign tmap row)"
    using i by (simp add: sent row run bulk_loop_appending nth_append)
  have matched: "\<exists>tel \<in> set (employees d). employee_tenant_id tel = tenant
               \<and> role tel = ''Telecaller'' \<and> employee_status tel = ''active''
               \<and> emp_id tel = js_String (case_EMPID row)
               \<and> sent = row\<lparr>telecaller_id := Some (employee_uuid tel),
                             assigned_employee_id := Some (js_String (case_EMPID row)),
                             status := Some Assigned\<rparr>"
    if "truthy (case_EMPID row)
            \<and> (\<exists>tel \<in> set (employees d). employee_tenant_id tel = tenant
                   \<and> role tel = ''Telecaller'' \<and> employee_status tel = ''active''
                   \<and> emp_id tel = js_String (case_EMPID row))"
  proof -
    from that have "truthy (case_EMPID row)"
      and "\<exists>tel \<in> set roster. emp_id tel = js_String (case_EMPID row)"
      by (simp_all add: member)
    from auto_assign_matched[OF this] show ?thesis
      unfolding sent' tmap_def by (auto simp: roster_def)
  qed
  have unmatched: "sent = row\<lparr>telecaller_id := None, assigned_employee_id := None, status := Some New\<rparr>"
    if "\<not> (truthy (case_EMPID row)
               \<and> (\<exists>tel \<in> set (employees d). employee_tenant_id tel = tenant
                      \<and> role tel = ''Telecaller'' \<and> employee_status tel = ''active''
                      \<and> emp_id tel = js_String (case_EMPID row)))"
  proof -
    from that have "\<not> (truthy (case_EMPID row)
              \<and> (\<exists>tel \<in> set roster. emp_id tel = js_String (case_EMPID row)))"
      by (simp add: member)
    from auto_assign_unmatched[OF this] show ?thesis
      by (simp add: sent' tmap_def)
  qed
  have counted: "snd (auto_assign tmap r) \<longleftrightarrow> truthy (case_EMPID r)
               \<and> (\<exists>tel \<in> set (employees d). employee_tenant_id tel = tenant
                      \<and> role tel = ''Telecaller'' \<and> employee_status tel = ''active''
                      \<and> emp_id tel = js_String (case_EMPID r))" for r
    by (simp add: tmap_def auto_assign_counted member)
  have counters: "autoAssigned (fst (createBulkCases faults upsert d cases))
           = length (filter (\<lambda>r. snd (auto_assign tmap r)) cases)
       \<and> unassigned (fst (createBulkCases faults upsert d cases))
           = length (filter (\<lambda>r. \<not> snd (auto_assign tmap r)) cases)"
    using bulk_loop_assignment_counters[of tmap upsert 0 cases
        "\<lparr>totalUploaded = 0, autoAssigned = 0, unassigned = 0, errors = []\<rparr>" d]
    by (simp add: run)
  show ?thesis
    using matched unmatched counters unfolding counted by blast
qed

theorem createBulkCases_assignment_witness:
  "customer_cases (snd (createBulkCases {} appending_upsert roster_db sample_upload)) ! 0
     = (upload_row ''LN1'' ''E9'')\<lparr>telecaller_id := None, assigned_employee_id := None,
                                     status := Some New\<rparr>
   \<and> customer_cases (snd (createBulkCases {} appending_upsert roster_db sample_upload)) ! 1
     = (upload_row ''LN2'' ''E1'')\<lparr>telecaller_id := Some ''u1'',
          assigned_employee_id := Some ''E1'', status := Some Assigned\<rparr>
   \<and> customer_cases (snd (createBulkCases {} appending_upsert roster_db sample_upload)) ! 2
     = (upload_row ''LN3'' ''E3'')\<lparr>telecaller_id := None, assigned_employee_id := None,
                                     status := Some New\<rparr>
   \<and> customer_cases (snd (createBulkCases {} appending_upsert roster_db sample_upload)) ! 3
     = (upload_row ''LN4'' ''E4'')\<lparr>telecaller_id := None, assigned_employee_id := None,
                                     status := Some New\<rparr>
   \<and> customer_cases (snd (createBulkCases {} appending_upsert roster_db sample_upload)) ! 4
     = (upload_row ''LN5'' ''E7'')\<lparr>telecaller_id := None, assigned_employee_id := None,
                                     status := Some New\<rparr>
   \<and> autoAssigned (fst (createBulkCases {} rejecting_upsert roster_db sample_upload)) = 1
   \<and> unassigned (fst (createBulkCases {} rejecting_upsert roster_db sample_upload)) = 4"
proof -
  have query: "SelectTelecallers \<notin> {}"
    by simp
  have tenant: "\<forall>r \<in> set sample_upload. tenant_id r = ''t1''"
    by (simp add: sample_upload_def)
  have len: "length (customer_cases roster_db) = 0"
    by (simp add: roster_db_def)
  have match: "(\<exists>tel \<in> set (employees roster_db). employee_tenant_id tel = ''t1''
                   \<and> role tel = ''Telecaller'' \<and> employee_status tel = ''active''
                   \<and> emp_id tel = k) \<longleftrightarrow> k = ''E1''" for k
    by (auto simp: roster_db_def sample_telecaller_def inactive_telecaller_def team_incharge_def
          other_telecaller_def)
  have uuid: "tel \<in> set (employees roster_db) \<Longrightarrow> emp_id tel = ''E1'' \<Longrightarrow> employee_uuid tel = ''u1''"
    for tel
    by (auto simp: roster_db_def sample_telecaller_def inactive_telecaller_def team_incharge_def
          other_telecaller_def)
  have nth: "sample_upload ! 0 = upload_row ''LN1'' ''E9''"
    "sample_upload ! 1 = upload_row ''LN2'' ''E1''"
    "sample_upload ! 2 = upload_row ''LN3'' ''E3''"
    "sample_upload ! 3 = upload_row ''LN4'' ''E4''"
    "sample_upload ! 4 = upload_row ''LN5'' ''E7''"
    by (simp_all add: sample_upload_def)
  have i: "0 < length sample_upload" "1 < length sample_upload" "2 < length sample_upload"
    "3 < length sample_upload" "4 < length sample_upload"
    by (simp_all add: sample_upload_def)
  have r0: "customer_cases (snd (createBulkCases {} appending_upsert roster_db sample_upload)) ! 0
     = (upload_row ''LN1'' ''E9'')\<lparr>telecaller_id := None, assigned_employee_id := None,
                                     status := Some New\<rparr>"
    using createBulkCases_assignment[OF query tenant i(1) nth(1)[symmetric] refl,
        of roster_db rejecting_upsert, unfolded len add_0]
    by (simp add: match)
  have r1: "customer_cases (snd (createBulkCases {} appending_upsert roster_db sample_upload)) ! 1
     = (upload_row ''LN2'' ''E1'')\<lparr>telecaller_id := Some ''u1'',
          assigned_employee_id := Some ''E1'', status := Some Assigned\<rparr>"
    using createBulkCases_assignment[OF query tenant i(2) nth(2)[symmetric] refl,
        of roster_db rejecting_upsert, unfolded len add_0]
    by (auto simp: match uuid)
  have r2: "customer_cases (snd (createBulkCases {} appending_upsert roster_db sample_upload)) ! 2
     = (upload_row ''LN3'' ''E3'')\<lparr>telecaller_id := None, assigned_employee_id := None,
                                     status := Some New\<rparr>"
    using createBulkCases_assignment[OF query tenant i(3) nth(3)[symmetric] refl,
        of roster_db rejecting_upsert, unfolded len add_0]
    by (simp add: match)
  have r3: "customer_cases (snd (createBulkCases {} appending_upsert roster_db sample_upload)) ! 3
     = (upload_row ''LN4'' ''E4'')\<lparr>telecaller_id := None, assigned_employee_id := None,
                                     status := Some New\<rparr>"
    using createBulkCases_assignment[OF query tenant i(4) nth(4)[symmetric] refl,
        of roster_db rejecting_upsert, unfolded len add_0]
    by (simp add: match)
  have r4: "customer_cases (snd (createBulkCases {} appending_upsert roster_db sample_upload)) ! 4
     = (upload_row ''LN5'' ''E7'')\<lparr>telecaller_id := None, assigned_employee_id := None,
                                     status := Some New\<rparr>"
    using createBulkCases_assignment[OF query tenant i(5) nth(5)[symmetric] refl,
        of roster_db rejecting_upsert, unfolded len add_0]
    by (simp add: match)
  have counters: "autoAssigned (fst (createBulkCases {} rejecting_upsert roster_db sample_upload)) = 1
     \<and> unassigned (fst (createBulkCases {} rejecting_upsert roster_db sample_upload)) = 4"
    using createBulkCases_assignment[OF query tenant i(1) nth(1)[symmetric] refl,
        of roster_db rejecting_upsert]
    by (simp add: match) (simp add: sample_upload_def)
  show ?thesis
    using r0 r1 r2 r3 r4 counters by (intro conjI) simp_all
qed

section \<open>Spreadsheet import\<close>

lemma findIndex_None: "findIndex P xs = None \<longleftrightarrow> (\<forall>x \<in> set xs. \<not> P x)"
  by (induction xs) auto

lemma findIndex_Some:
  "findIndex P xs = Some i \<Longrightarrow> i < length xs \<and> P (xs ! i) \<and> (\<forall>j < i. \<not> P (xs ! j))"
proof (induction xs arbitrary: i)
  case Nil
  then show ?case by simp
next
  case (Cons x xs)
  show ?case
  proof (cases "P x")
    case True
    with Cons.prems show ?thesis by simp
  next
    case False
    with Cons.prems obtain k where k: "findIndex P xs = Some k" "i = Suc k"
      by auto
    from Cons.IH[OF k(1)] False show ?thesis
      by (auto simp: k(2) nth_Cons split: nat.splits)
  qed
qed

lemma header_key_empid: "header_key (JStr ''EMPID'') = ''empid''"
  by (simp add: header_key_def trim_def toLowerCase_def lower_char_def is_space_def)

lemma header_key_loan: "header_key (JStr ''Loan ID'') = ''loan id''"
  by (simp add: header_key_def trim_def toLowerCase_def lower_char_def is_space_def)

lemma header_key_customer: "header_key (JStr ''Customer Name'') = ''customer name''"
  by (simp add: header_key_def trim_def toLowerCase_def lower_char_def is_space_def)

lemma find_loan_column:
  "find_column sample_columns ''Loan ID'' = Some \<lparr>column_name = ''loanId'', display_name = ''Loan ID''\<rparr>"
  by (simp add: find_column_def sample_columns_def trim_def toLowerCase_def lower_char_def is_space_def)

lemma trim_plain: "trim ''E1'' = ''E1''" "trim ''LN1'' = ''LN1''"
  by (simp_all add: trim_def is_space_def)

lemma parse_sheet_empid_second:
  "parseExcelFile sheet_empid_second sample_columns = Inr [[(''EMPID'', ''E1''), (''loanId'', ''LN1'')]]"
  by (simp add: parseExcelFile_def sheet_empid_second_def header_key_empid header_key_loan
        mapped_headers_def List.map_filter_def find_loan_column build_row_def
        cell_at_def cell_text_def trim_plain)

lemma parse_sheet_with_gaps:
  "parseExcelFile sheet_with_gaps sample_columns = Inr [[(''EMPID'', ''E1''), (''loanId'', ''LN1'')]]"
  by (simp add: parseExcelFile_def sheet_with_gaps_def header_key_empid header_key_loan
        mapped_headers_def List.map_filter_def find_loan_column build_row_def
        cell_at_def cell_text_def trim_plain)

text \<open>Headers are compared after lower-casing and trimming.\<close>

lemma header_key_padded: "header_key (JStr '' EmpId  '') = ''empid''"
  by (simp add: header_key_def trim_def toLowerCase_def lower_char_def is_space_def)

lemma parse_padded_header:
  "parseExcelFile [[JStr ''Loan ID'', JStr '' EmpId  ''], [JStr ''LN1'', JStr ''E1'']] sample_columns
     = Inr [[(''EMPID'', ''E1''), (''loanId'', ''LN1'')]]"
  by (simp add: parseExcelFile_def header_key_padded header_key_loan
        mapped_headers_def List.map_filter_def find_loan_column build_row_def
        cell_at_def cell_text_def trim_plain)

text \<open>
  C8, as stated, fails: a sheet whose first header is not EMPID is accepted when a
  later header is, and a sheet of a header row alone without EMPID fails with the
  empty-file error, not with the EMPID error.
\<close>

theorem parseExcelFile_first_column_counterexample:
  "header_key (hd (hd sheet_empid_second)) \<noteq> ''empid''
   \<and> parseExcelFile sheet_empid_second sample_columns
       = Inr [[(''EMPID'', ''E1''), (''loanId'', ''LN1'')]]
   \<and> parseExcelFile sheet_header_only sample_columns = Inl EmptyFile"
  by (simp add: parse_sheet_empid_second)
     (simp add: sheet_empid_second_def header_key_loan parseExcelFile_def sheet_header_only_def)

text \<open>
  C8, amended. \<open>parseExcelFile\<close> requires some header, in whatever column, to be
  \<open>empid\<close> after lower-casing and trimming; the first such column is the EMPID column.
  For a sheet of a header row and at least one more row: when no header is, the result
  is the EMPID-column-not-found error whatever the other rows hold; and every accepted
  sheet has such a header. A sheet of fewer than two rows fails with the empty-file
  error.
\<close>

theorem parseExcelFile_requires_EMPID_header:
  "((\<forall>h \<in> set headers. header_key h \<noteq> ''empid'') \<longrightarrow>
      parseExcelFile (headers # row # rows) columns = Inl EmpIdColumnNotFound)
   \<and> (parseExcelFile (headers # row # rows) columns = Inr out \<longrightarrow>
        (\<exists>i < length headers. header_key (headers ! i) = ''empid''
            \<and> (\<forall>j < i. header_key (headers ! j) \<noteq> ''empid'')
            \<and> findIndex (\<lambda>h. header_key h = ''empid'') headers = Some i))
   \<and> (length jsonData < 2 \<longrightarrow> parseExcelFile jsonData columns = Inl EmptyFile)"
proof (intro conjI impI)
  assume "\<forall>h \<in> set headers. header_key h \<noteq> ''empid''"
  then have "findIndex (\<lambda>h. header_key h = ''empid'') headers = None"
    by (simp add: findIndex_None)
  then show "parseExcelFile (headers # row # rows) columns = Inl EmpIdColumnNotFound"
    by (simp add: parseExcelFile_def)
next
  assume "parseExcelFile (headers # row # rows) columns = Inr out"
  then obtain i where "findIndex (\<lambda>h. header_key h = ''empid'') headers = Some i"
    by (auto simp: parseExcelFile_def split: option.splits)
  then show "\<exists>i < length headers. header_key (headers ! i) = ''empid''
            \<and> (\<forall>j < i. header_key (headers ! j) \<noteq> ''empid'')
            \<and> findIndex (\<lambda>h. header_key h = ''empid'') headers = Some i"
    using findIndex_Some[of "\<lambda>h. header_key h = ''empid''" headers i] by blast
next
  assume "length jsonData < 2"
  then show "parseExcelFile jsonData columns = Inl EmptyFile"
    by (simp add: parseExcelFile_def)
qed

theorem parseExcelFile_requires_EMPID_header_witness:
  "parseExcelFile sheet_without_empid sample_columns = Inl EmpIdColumnNotFound
   \<and> (\<exists>i < 2. header_key ([JStr ''Loan ID'', JStr ''EMPID''] ! i) = ''empid'')
   \<and> parseExcelFile sheet_header_only sample_columns = Inl EmptyFile"
proof -
  have none: "\<forall>h \<in> set [JStr ''Loan ID'', JStr ''Customer Name'']. header_key h \<noteq> ''empid''"
    by (simp add: header_key_loan header_key_customer)
  have ok: "parseExcelFile ([JStr ''Loan ID'', JStr ''EMPID''] # [JStr ''LN1'', JStr ''E1''] # [])
      sample_columns = Inr [[(''EMPID'', ''E1''), (''loanId'', ''LN1'')]]"
    using parse_sheet_empid_second by (simp add: sheet_empid_second_def)
  have short: "length sheet_header_only < 2"
    by (simp add: sheet_header_only_def)
  note t1 = parseExcelFile_requires_EMPID_header[of "[JStr ''Loan ID'', JStr ''Customer Name'']"
        "[JStr ''LN1'', JStr ''A'']" "[]" sample_columns "[]" "[]"]
  note t2 = parseExcelFile_requires_EMPID_header[of "[JStr ''Loan ID'', JStr ''EMPID'']"
        "[JStr ''LN1'', JStr ''E1'']" "[]" sample_columns
        "[[(''EMPID'', ''E1''), (''loanId'', ''LN1'')]]" "[]"]
  note t3 = parseExcelFile_requires_EMPID_header[of "[]" "[]" "[]" sample_columns "[]"
        sheet_header_only]
  have a: "parseExcelFile sheet_without_empid sample_columns = Inl EmpIdColumnNotFound"
    unfolding sheet_without_empid_def
    by (rule mp[OF conjunct1[OF t1] none])
  have "\<exists>i < length [JStr ''Loan ID'', JStr ''EMPID''].
          header_key ([JStr ''Loan ID'', JStr ''EMPID''] ! i) = ''empid''
          \<and> (\<forall>j < i. header_key ([JStr ''Loan ID'', JStr ''EMPID''] ! j) \<noteq> ''empid'')
          \<and> findIndex (\<lambda>h. header_key h = ''empid'') [JStr ''Loan ID'', JStr ''EMPID''] = Some i"
    by (rule mp[OF conjunct1[OF conjunct2[OF t2]] ok])
  then obtain i where "i < length [JStr ''Loan ID'', JStr ''EMPID'']"
      and "header_key ([JStr ''Loan ID'', JStr ''EMPID''] ! i) = ''empid''"
    by blast
  then have b: "\<exists>i < 2. header_key ([JStr ''Loan ID'', JStr ''EMPID''] ! i) = ''empid''"
    by (intro exI[of _ i]) simp
  have c: "parseExcelFile sheet_header_only sample_columns = Inl EmptyFile"
    by (rule mp[OF conjunct2[OF conjunct2[OF t3]] short])
  show ?thesis
    using a b c by blast
qed

lemma cell_at_Nil [simp]: "cell_at [] i = JUndefined"
  by (simp add: cell_at_def)

lemma truthy_cell_nonempty: "truthy (cell_at row i) \<Longrightarrow> row \<noteq> []"
  by (cases row) simp_all

lemma length_filter_compl:
  "length (filter P xs) = length xs - length (filter (\<lambda>x. \<not> P x) xs)"
  using sum_length_filter_compl[of P xs] by simp

lemma empty_cell_falsy:
  "c = JUndefined \<or> c = JNull \<or> c = JStr [] \<Longrightarrow> \<not> truthy c"
  by auto

lemma parseExcelFile_accepted:
  assumes run: "parseExcelFile (headers # rows) columns = Inr out"
  shows "\<exists>i. findIndex (\<lambda>h. header_key h = ''empid'') headers = Some i
         \<and> out = map (build_row (mapped_headers columns headers i) i)
                   (filter (\<lambda>row. truthy (cell_at row i)) rows)"
proof -
  from run have long: "\<not> length (headers # rows) < 2"
    by (auto simp: parseExcelFile_def split: if_splits)
  from run long obtain i where i: "findIndex (\<lambda>h. header_key h = ''empid'') headers = Some i"
    by (cases "findIndex (\<lambda>h. header_key h = ''empid'') headers") (simp_all add: parseExcelFile_def)
  have same: "filter (\<lambda>row. row \<noteq> [] \<and> truthy (cell_at row i)) rows
                = filter (\<lambda>row. truthy (cell_at row i)) rows"
    by (rule filter_cong[OF refl]) (use truthy_cell_nonempty in blast)
  from run long i have "mapped_headers columns headers i \<noteq> []"
    by (auto simp: parseExcelFile_def split: if_splits)
  with run long i have "out = map (build_row (mapped_headers columns headers i) i)
                     (filter (\<lambda>row. row \<noteq> [] \<and> truthy (cell_at row i)) rows)"
    by (simp add: parseExcelFile_def)
  with i same show ?thesis
    by simp
qed

text \<open>
  C10. When \<open>parseExcelFile\<close> accepts a sheet, the rows it returns are built from
  exactly the data rows whose EMPID cell is truthy, in order. A data row whose EMPID
  cell is empty or missing is not among them, and the result carries no error report;
  the number of rows returned is the number of data rows less the rows dropped, so it
  is smaller than the number of data rows as soon as one EMPID cell is empty or
  missing, as in the sample sheet, where one of three data rows is returned.
\<close>

theorem parseExcelFile_drops_rows_without_EMPID:
  "(parseExcelFile (headers # rows) columns = Inr out \<longrightarrow>
      (\<exists>i. findIndex (\<lambda>h. header_key h = ''empid'') headers = Some i
         \<and> out = map (build_row (mapped_headers columns headers i) i)
                   (filter (\<lambda>row. truthy (cell_at row i)) rows)
         \<and> (\<forall>row \<in> set rows.
               cell_at row i = JUndefined \<or> cell_at row i = JNull \<or> cell_at row i = JStr [] \<longrightarrow>
               row \<notin> set (filter (\<lambda>row. truthy (cell_at row i)) rows))
         \<and> length out = length rows - length (filter (\<lambda>row. \<not> truthy (cell_at row i)) rows)
         \<and> ((\<exists>row \<in> set rows.
               cell_at row i = JUndefined \<or> cell_at row i = JNull \<or> cell_at row i = JStr [])
             \<longrightarrow> length out < length rows)))
   \<and> parseExcelFile sheet_with_gaps sample_columns = Inr [[(''EMPID'', ''E1''), (''loanId'', ''LN1'')]]
   \<and> length (tl sheet_with_gaps) = 3"
proof (intro conjI impI)
  assume run: "parseExcelFile (headers # rows) columns = Inr out"
  from parseExcelFile_accepted[OF run] obtain i
    where i: "findIndex (\<lambda>h. header_key h = ''empid'') headers = Some i"
      and out: "out = map (build_row (mapped_headers columns headers i) i)
                     (filter (\<lambda>row. truthy (cell_at row i)) rows)"
    by blast
  have gone: "\<forall>row \<in> set rows.
               cell_at row i = JUndefined \<or> cell_at row i = JNull \<or> cell_at row i = JStr [] \<longrightarrow>
               row \<notin> set (filter (\<lambda>row. truthy (cell_at row i)) rows)"
  proof (intro ballI impI)
    fix row
    assume "cell_at row i = JUndefined \<or> cell_at row i = JNull \<or> cell_at row i = JStr []"
    then have "\<not> truthy (cell_at row i)"
      by (rule empty_cell_falsy)
    then show "row \<notin> set (filter (\<lambda>row. truthy (cell_at row i)) rows)"
      by simp
  qed
  have len: "length out = length rows - length (filter (\<lambda>row. \<not> truthy (cell_at row i)) rows)"
    unfolding out length_map by (rule length_filter_compl)
  have less: "(\<exists>row \<in> set rows.
               cell_at row i = JUndefined \<or> cell_at row i = JNull \<or> cell_at row i = JStr [])
             \<longrightarrow> length out < length rows"
  proof
    assume "\<exists>row \<in> set rows.
               cell_at row i = JUndefined \<or> cell_at row i = JNull \<or> cell_at row i = JStr []"
    then obtain row where row: "row \<in> set rows"
        and "cell_at row i = JUndefined \<or> cell_at row i = JNull \<or> cell_at row i = JStr []"
      by blast
    then have "\<not> truthy (cell_at row i)"
      using empty_cell_falsy by blast
    with row have "length (filter (\<lambda>row. truthy (cell_at row i)) rows) < length rows"
      by (rule length_filter_less)
    then show "length out < length rows"
      unfolding out length_map .
  qed
  show "\<exists>i. findIndex (\<lambda>h. header_key h = ''empid'') headers = Some i
         \<and> out = map (build_row (mapped_headers columns headers i) i)
                   (filter (\<lambda>row. truthy (cell_at row i)) rows)
         \<and> (\<forall>row \<in> set rows.
               cell_at row i = JUndefined \<or> cell_at row i = JNull \<or> cell_at row i = JStr [] \<longrightarrow>
               row \<notin> set (filter (\<lambda>row. truthy (cell_at row i)) rows))
         \<and> length out = length rows - length (filter (\<lambda>row. \<not> truthy (cell_at row i)) rows)
         \<and> ((\<exists>row \<in> set rows.
               cell_at row i = JUndefined \<or> cell_at row i = JNull \<or> cell_at row i = JStr [])
             \<longrightarrow> length out < length rows)"
    by (rule exI[of _ i]) (intro conjI i out gone len less)
next
  show "parseExcelFile sheet_with_gaps sample_columns = Inr [[(''EMPID'', ''E1''), (''loanId'', ''LN1'')]]"
    by (rule parse_sheet_with_gaps)
next
  show "length (tl sheet_with_gaps) = 3"
    by (simp add: sheet_with_gaps_def)
qed

theorem parseExcelFile_drops_rows_without_EMPID_witness:
  "parseExcelFile ([JStr ''EMPID'', JStr ''Loan ID'']
       # [[JStr ''E1'', JStr ''LN1''], [JStr [], JStr ''LN2''], [JUndefined, JStr ''LN3'']])
     sample_columns = Inr [[(''EMPID'', ''E1''), (''loanId'', ''LN1'')]]
   \<and> length [[(''EMPID'', ''E1''), (''loanId'', ''LN1'')]]
       < length [[JStr ''E1'', JStr ''LN1''], [JStr [], JStr ''LN2''], [JUndefined, JStr ''LN3'']]"
proof -
  let ?headers = "[JStr ''EMPID'', JStr ''Loan ID'']"
  let ?rows = "[[JStr ''E1'', JStr ''LN1''], [JStr [], JStr ''LN2''], [JUndefined, JStr ''LN3'']]"
  let ?out = "[[(''EMPID'', ''E1''), (''loanId'', ''LN1'')]]"
  have run: "parseExcelFile (?headers # ?rows) sample_columns = Inr ?out"
    using parse_sheet_with_gaps by (simp add: sheet_with_gaps_def)
  have idx: "findIndex (\<lambda>h. header_key h = ''empid'') ?headers = Some 0"
    by (simp add: header_key_empid)
  note t = parseExcelFile_drops_rows_without_EMPID[of ?headers ?rows sample_columns ?out]
  from mp[OF conjunct1[OF t] run] obtain i
    where i: "findIndex (\<lambda>h. header_key h = ''empid'') ?headers = Some i"
      and less: "(\<exists>row \<in> set ?rows.
               cell_at row i = JUndefined \<or> cell_at row i = JNull \<or> cell_at row i = JStr [])
             \<longrightarrow> length ?out < length ?rows"
    by blast
  from i idx have i0: "i = 0"
    by simp
  have "cell_at [JStr [], JStr ''LN2''] 0 = JStr []"
    by (simp add: cell_at_def)
  then have "\<exists>row \<in> set ?rows.
               cell_at row i = JUndefined \<or> cell_at row i = JNull \<or> cell_at row i = JStr []"
    unfolding i0 by (intro bexI[of _ "[JStr [], JStr ''LN2'']"]) simp_all
  with less have "length ?out < length ?rows"
    by (rule mp)
  with run show ?thesis
    by (rule conjI)
qed

end
